theory Spec2Isabelle
  imports Main "HOL-Library.Monad_Syntax"
begin

section \<open>The game server: data model\<close>

text \<open>
  The class \<open>Game\<close> of the server keeps a 30 x 30 board of cell tags, the two sockets of a
  session, a score per socket and the socket whose turn it is. The static helpers of the
  class are pure functions of the board and of the move a client sent; they are embedded
  as HOL functions below, method by method and under the source's names (without the
  leading underscore, which an Isabelle name cannot carry).

  Numbers are JavaScript numbers that hold integers here (coordinates, dice, scores):
  they are modelled as \<open>int\<close>. A thrown \<open>TypeError\<close> (reading or writing a property
  of \<open>undefined\<close> or \<open>null\<close>) is the value \<open>None\<close> of the option monad.
\<close>

subsection \<open>Cells, boards and array reads\<close>

text \<open>The three tags a cell of \<open>_gameField\<close> ever holds.\<close>

datatype cell = default__cell | red__cell | blue__cell

type_synonym game_field = "cell list list"

text \<open>
  \<open>arr[i]\<close> for an integer \<open>i\<close>: the element, or \<open>undefined\<close> (here \<open>None\<close>) outside
  \<open>0 .. length - 1\<close>.
\<close>

definition elemAt :: "'a list \<Rightarrow> int \<Rightarrow> 'a option" where
  "elemAt arr i = (if 0 \<le> i \<and> i < int (length arr) then Some (arr ! nat i) else None)"

text \<open>
  \<open>field[i][j]\<close>: a \<open>TypeError\<close> (outer \<open>None\<close>) when \<open>field[i]\<close> is undefined,
  otherwise the cell or \<open>undefined\<close> (inner \<open>None\<close>).
\<close>

definition cellAt :: "game_field \<Rightarrow> int \<Rightarrow> int \<Rightarrow> cell option option" where
  "cellAt field i j = (case elemAt field i of None \<Rightarrow> None | Some r \<Rightarrow> Some (elemAt r j))"

text \<open>The comparison \<open>field[i][j] === type\<close>.\<close>

definition cellIs :: "game_field \<Rightarrow> int \<Rightarrow> int \<Rightarrow> cell \<Rightarrow> bool option" where
  "cellIs field i j type = map_option (\<lambda>v. v = Some type) (cellAt field i j)"

text \<open>
  \<open>field[i][j] = type\<close>: a \<open>TypeError\<close> when \<open>field[i]\<close> is undefined. A column outside
  the row would make JavaScript grow the row (or hang a property on it), so that the board
  is no longer a 30 x 30 matrix of tags: the model stops there with \<open>None\<close> as well, and
  \<open>makeMove_inside\<close> below shows that a move that passed the check never gets there.
\<close>

definition setCell :: "game_field \<Rightarrow> int \<Rightarrow> int \<Rightarrow> cell \<Rightarrow> game_field option" where
  "setCell field i j type =
     (case elemAt field i of
        None \<Rightarrow> None
      | Some r \<Rightarrow>
          if 0 \<le> j \<and> j < int (length r) then Some (field[nat i := r[nat j := type]])
          else None)"

text \<open>The short-circuit \<open>a && b\<close> of two checks that may throw.\<close>

definition and_also :: "bool option \<Rightarrow> bool option \<Rightarrow> bool option" where
  "and_also a b = (case a of None \<Rightarrow> None | Some x \<Rightarrow> if x then b else Some False)"

text \<open>\<open>color === 'r' ? 'red__cell' : 'blue__cell'\<close>\<close>

definition cellType :: "string \<Rightarrow> cell" where
  "cellType color = (if color = ''r'' then red__cell else blue__cell)"

text \<open>
  \<open>_generateField\<close>: thirty times, push an empty row and push thirty default cells to
  row \<open>i\<close> of the array.
\<close>

definition generateField :: "game_field \<Rightarrow> game_field" where
  "generateField field =
     fold (\<lambda>i defaultField.
             (defaultField @ [[]])[i := (defaultField @ [[]]) ! i @ replicate 30 default__cell])
       [0..<30] field"

subsection \<open>Move geometry\<close>

text \<open>
  A JavaScript array with holes: \<open>numbers[k] = v\<close> beyond the end extends the array, the
  skipped indices stay empty, and \<open>filter\<close> visits only the indices that are present.
\<close>

definition sparse_set :: "'a option list \<Rightarrow> nat \<Rightarrow> 'a \<Rightarrow> 'a option list" where
  "sparse_set arr k v =
     (if k < length arr then arr[k := Some v]
      else arr @ replicate (k - length arr) None @ [Some v])"

definition js_filter :: "('a \<Rightarrow> bool) \<Rightarrow> 'a option list \<Rightarrow> 'a list" where
  "js_filter P arr = filter P (concat (map (\<lambda>x. case x of None \<Rightarrow> [] | Some v \<Rightarrow> [v]) arr))"

text \<open>
  The loop of \<open>_factorization\<close>, \<open>for (i = 1; i <= n; i++)\<close>. When \<open>i\<close> divides \<open>n\<close>
  the quotient \<open>n / i\<close> of the two numbers is the integer \<open>n div i\<close>.
\<close>

function factorizationLoop :: "int \<Rightarrow> int \<Rightarrow> (int \<times> int) option list \<Rightarrow> (int \<times> int) option list" where
  "factorizationLoop n i numbers =
     (if i \<le> n
      then factorizationLoop n (i + 1)
             (if n mod i = 0 then sparse_set numbers (nat (i - 1)) (i - 1, n div i - 1)
              else numbers)
      else numbers)"
  by pat_completeness auto
termination
  by (relation "measure (\<lambda>(n, i, numbers). nat (n + 1 - i))") auto

declare factorizationLoop.simps [simp del]

definition factorization :: "int \<Rightarrow> (int \<times> int) list" where
  "factorization n = js_filter (\<lambda>item. True) (factorizationLoop n 1 [])"

text \<open>\<open>_showMoves\<close>: every pair, added to or subtracted from the cell the move starts at.\<close>

definition showMoves :: "(int \<times> int) list \<Rightarrow> string \<Rightarrow> string \<Rightarrow> int \<Rightarrow> int \<Rightarrow> (int \<times> int) list" where
  "showMoves primeNumbers firstSign secondSign row col =
     js_filter (\<lambda>item. True)
       (map (\<lambda>item. Some (if firstSign = ''+'' then fst item + row else row - fst item,
                           if secondSign = ''+'' then snd item + col else col - snd item))
          primeNumbers)"

text \<open>\<open>_checkTo\<close>: the flag is raised by every entry that equals the cell.\<close>

definition checkTo :: "(int \<times> int) list \<Rightarrow> int \<Rightarrow> int \<Rightarrow> bool" where
  "checkTo moves row col =
     fold (\<lambda>item flag. if fst item = row \<and> snd item = col then True else flag) moves False"

text \<open>
  \<open>_areCellsEmpty\<close>: the two loops over the rectangle, left at the first cell that is not
  \<open>'default__cell'\<close> (an undefined cell is not). The index lists are \<open>[rowF..rowT]\<close> and
  \<open>[colF..colT]\<close>.
\<close>

fun emptyCols :: "game_field \<Rightarrow> int \<Rightarrow> int list \<Rightarrow> bool option" where
  "emptyCols field i [] = Some True"
| "emptyCols field i (j # js) =
     do { same \<leftarrow> cellIs field i j default__cell;
          if \<not> same then Some False else emptyCols field i js }"

fun emptyRows :: "game_field \<Rightarrow> int list \<Rightarrow> int list \<Rightarrow> bool option" where
  "emptyRows field [] js = Some True"
| "emptyRows field (i # is) js =
     do { row_empty \<leftarrow> emptyCols field i js;
          if \<not> row_empty then Some False else emptyRows field is js }"

definition areCellsEmpty :: "game_field \<Rightarrow> int \<Rightarrow> int \<Rightarrow> int \<Rightarrow> int \<Rightarrow> bool option" where
  "areCellsEmpty field rowFrom colFrom rowTo colTo =
     (let rowF = (if rowFrom < rowTo then rowFrom else rowTo);
          colF = (if colFrom < colTo then colFrom else colTo);
          rowT = (if rowF = rowTo then rowFrom else rowTo);
          colT = (if colF = colTo then colFrom else colTo)
      in emptyRows field [rowF..rowT] [colF..colT])"

text \<open>\<open>_fillField\<close>: the same two loops, writing the colour's tag.\<close>

fun fillCols :: "cell \<Rightarrow> game_field \<Rightarrow> int \<Rightarrow> int list \<Rightarrow> game_field option" where
  "fillCols type field i [] = Some field"
| "fillCols type field i (j # js) =
     do { field' \<leftarrow> setCell field i j type; fillCols type field' i js }"

fun fillRows :: "cell \<Rightarrow> game_field \<Rightarrow> int list \<Rightarrow> int list \<Rightarrow> game_field option" where
  "fillRows type field [] js = Some field"
| "fillRows type field (i # is) js =
     do { field' \<leftarrow> fillCols type field i js; fillRows type field' is js }"

definition fillField :: "string \<Rightarrow> game_field \<Rightarrow> int \<Rightarrow> int \<Rightarrow> int \<Rightarrow> int \<Rightarrow> game_field option" where
  "fillField color gameField rowFrom colFrom rowTo colTo =
     (let type = cellType color;
          rowF = (if rowFrom < rowTo then rowFrom else rowTo);
          colF = (if colFrom < colTo then colFrom else colTo);
          rowT = (if rowF = rowTo then rowFrom else rowTo);
          colT = (if colF = colTo then colFrom else colTo)
      in fillRows type gameField [rowF..rowT] [colF..colT])"

text \<open>
  \<open>_makeMove\<close>: the signs follow the anchor corner \<open>from\<close> (an array that is empty or holds
  a row and a column); the target must be among the moves and the rectangle empty.
\<close>

definition makeMove ::
  "game_field \<Rightarrow> int list \<Rightarrow> int \<Rightarrow> int \<Rightarrow> int \<Rightarrow> int \<Rightarrow> int \<times> int \<Rightarrow> bool option" where
  "makeMove gameField from rowFrom colFrom rowTo colTo dices =
     (let primeNumbersArray = factorization (fst dices + snd dices);
          possibleMoves = [];
          possibleMoves =
            (if elemAt from 0 = Some 0
             then (if elemAt from 1 = Some 0
                   then showMoves primeNumbersArray ''+'' ''+'' rowFrom colFrom
                   else showMoves primeNumbersArray ''+'' ''-'' rowFrom colFrom)
             else possibleMoves);
          possibleMoves =
            (if elemAt from 0 = Some 29
             then (if elemAt from 1 = Some 0
                   then showMoves primeNumbersArray ''-'' ''+'' rowFrom colFrom
                   else showMoves primeNumbersArray ''-'' ''-'' rowFrom colFrom)
             else possibleMoves)
      in and_also (Some (checkTo possibleMoves rowTo colTo))
           (areCellsEmpty gameField rowFrom colFrom rowTo colTo))"

subsection \<open>Turn and corner tracker\<close>

text \<open>\<open>_isFieldEmpty\<close>: the four corners hold the default tag.\<close>

definition isFieldEmpty :: "game_field \<Rightarrow> bool option" where
  "isFieldEmpty field =
     (let type = default__cell
      in and_also (and_also (and_also (cellIs field 0 0 type) (cellIs field 0 29 type))
                     (cellIs field 29 0 type))
           (cellIs field 29 29 type))"

text \<open>
  \<open>_isCornerEmpty\<close>: for the first corner (in the order (0,0), (0,29), (29,0), (29,29))
  that is taken, whether the corner diagonally opposite is still free.
\<close>

definition isCornerEmpty :: "game_field \<Rightarrow> bool option" where
  "isCornerEmpty gameField =
     (let field = gameField; type = default__cell
      in do { c00 \<leftarrow> cellIs field 0 0 type;
              if \<not> c00 then cellIs field 29 29 type
              else do { c01 \<leftarrow> cellIs field 0 29 type;
              if \<not> c01 then cellIs field 29 0 type
              else do { c10 \<leftarrow> cellIs field 29 0 type;
              if \<not> c10 then cellIs field 0 29 type
              else do { c11 \<leftarrow> cellIs field 29 29 type;
              if \<not> c11 then cellIs field 0 0 type
              else Some False } } } })"

text \<open>
  \<open>_findFirstMove\<close>: the corner opposite a taken corner; a later test overwrites an
  earlier one. The array \<open>from\<close> is empty or holds a row and a column.
\<close>

definition findFirstMove :: "game_field \<Rightarrow> int list option" where
  "findFirstMove field =
     (let type = default__cell; from = []
      in do { c00 \<leftarrow> cellIs field 0 0 type;
              let from = (if \<not> c00 then [29, 29] else from);
              c01 \<leftarrow> cellIs field 0 29 type;
              let from = (if \<not> c01 then [29, 0] else from);
              c10 \<leftarrow> cellIs field 29 0 type;
              let from = (if \<not> c10 then [0, 29] else from);
              c11 \<leftarrow> cellIs field 29 29 type;
              let from = (if \<not> c11 then [0, 0] else from);
              Some from })"

text \<open>\<open>_findCurrentMove\<close>: the corner that carries the colour of the move.\<close>

definition findCurrentMove :: "game_field \<Rightarrow> string \<Rightarrow> int list option" where
  "findCurrentMove gameField color =
     (let field = gameField; from = []; type = cellType color
      in do { c00 \<leftarrow> cellIs field 0 0 type;
              let from = (if c00 then [0, 0] else from);
              c01 \<leftarrow> cellIs field 0 29 type;
              let from = (if c01 then [0, 29] else from);
              c10 \<leftarrow> cellIs field 29 0 type;
              let from = (if c10 then [29, 0] else from);
              c11 \<leftarrow> cellIs field 29 29 type;
              let from = (if c11 then [29, 29] else from);
              Some from })"

text \<open>
  \<open>_cellFree\<close>: the free cells among the four neighbours of a cell. The tests
  \<open>if (field[row + 1])\<close> and \<open>if (field[row][col + 1])\<close> ask whether the row and the cell
  are defined (a row and a tag are truthy, \<open>undefined\<close> is not).
\<close>

definition cellFree :: "game_field \<Rightarrow> int \<Rightarrow> int \<Rightarrow> (int \<times> int) list option" where
  "cellFree gameField row col =
     (let field = gameField; resultArray = []
      in do { resultArray \<leftarrow>
                (if row \<noteq> 0
                 then do { free \<leftarrow> cellIs field (row - 1) col default__cell;
                           Some (if free then resultArray @ [(row - 1, col)] else resultArray) }
                 else Some resultArray);
              resultArray \<leftarrow>
                (if col \<noteq> 0
                 then do { free \<leftarrow> cellIs field row (col - 1) default__cell;
                           Some (if free then resultArray @ [(row, col - 1)] else resultArray) }
                 else Some resultArray);
              resultArray \<leftarrow>
                (if elemAt field (row + 1) \<noteq> None
                 then do { free \<leftarrow> cellIs field (row + 1) col default__cell;
                           Some (if free then resultArray @ [(row + 1, col)] else resultArray) }
                 else Some resultArray);
              right \<leftarrow> cellAt field row (col + 1);
              resultArray \<leftarrow>
                (if right \<noteq> None
                 then do { free \<leftarrow> cellIs field row (col + 1) default__cell;
                           Some (if free then resultArray @ [(row, col + 1)] else resultArray) }
                 else Some resultArray);
              Some resultArray })"

text \<open>\<open>_findFreeCells\<close>: the free neighbours of every cell of the colour, row by row.\<close>

fun freeCellsCols ::
  "game_field \<Rightarrow> cell \<Rightarrow> int \<Rightarrow> int list \<Rightarrow> (int \<times> int) list \<Rightarrow> (int \<times> int) list option" where
  "freeCellsCols field cellColor i [] freeCells = Some freeCells"
| "freeCellsCols field cellColor i (j # js) freeCells =
     do { same \<leftarrow> cellIs field i j cellColor;
          freeCells \<leftarrow>
            (if same then do { around \<leftarrow> cellFree field i j; Some (freeCells @ around) }
             else Some freeCells);
          freeCellsCols field cellColor i js freeCells }"

fun freeCellsRows ::
  "game_field \<Rightarrow> cell \<Rightarrow> int list \<Rightarrow> int list \<Rightarrow> (int \<times> int) list \<Rightarrow> (int \<times> int) list option" where
  "freeCellsRows field cellColor [] js freeCells = Some freeCells"
| "freeCellsRows field cellColor (i # is) js freeCells =
     do { freeCells \<leftarrow> freeCellsCols field cellColor i js freeCells;
          freeCellsRows field cellColor is js freeCells }"

definition findFreeCells :: "game_field \<Rightarrow> string \<Rightarrow> (int \<times> int) list option" where
  "findFreeCells gameField color =
     (let field = gameField; freeCells = []; cellColor = cellType color
      in freeCellsRows field cellColor [0..29] [0..29] freeCells)"

text \<open>
  \<open>_checkFirstMove\<close>: the very first move of a game starts on the border rows and columns,
  and \<open>_makeMove\<close> takes the start cell as the anchor.
\<close>

definition checkFirstMove ::
  "game_field \<Rightarrow> int \<Rightarrow> int \<Rightarrow> int \<Rightarrow> int \<Rightarrow> int \<times> int \<Rightarrow> bool option" where
  "checkFirstMove field rowFrom colFrom rowTo colTo dices =
     (if rowFrom > 0 \<and> rowFrom < 29 then Some False
      else if colFrom > 0 \<and> colFrom < 29 then Some False
      else makeMove field [rowFrom, colFrom] rowFrom colFrom rowTo colTo dices)"

text \<open>
  \<open>_checkMove\<close>: \<open>gameField[from[0]][from[1]]\<close> throws when \<open>from\<close> is empty. When the
  anchor corner is still free the move must start on it, otherwise on a free cell next to
  the colour's cells.
\<close>

definition checkMove ::
  "int list \<Rightarrow> game_field \<Rightarrow> int \<Rightarrow> int \<Rightarrow> int \<Rightarrow> int \<Rightarrow> int \<times> int \<Rightarrow> string \<Rightarrow> bool option" where
  "checkMove from gameField rowFrom colFrom rowTo colTo dices color =
     do { anchorRow \<leftarrow> (case elemAt from 0 of None \<Rightarrow> None | Some r \<Rightarrow> elemAt gameField r);
          let anchorCell = (case elemAt from 1 of None \<Rightarrow> None | Some c \<Rightarrow> elemAt anchorRow c);
          if anchorCell = Some default__cell
          then (if Some rowFrom \<noteq> elemAt from 0 \<or> Some colFrom \<noteq> elemAt from 1 then Some False
                else makeMove gameField from rowFrom colFrom rowTo colTo dices)
          else do { freeCells \<leftarrow> findFreeCells gameField color;
                    if checkTo freeCells rowFrom colFrom
                    then makeMove gameField from rowFrom colFrom rowTo colTo dices
                    else Some False } }"

text \<open>\<open>_checkWin\<close>, on a score that may be \<open>undefined\<close> or \<open>NaN\<close>.\<close>

datatype jsnum = NaN | Num int

definition checkWin :: "jsnum option \<Rightarrow> bool" where
  "checkWin score = (case score of Some (Num s) \<Rightarrow> s \<ge> 450 | _ \<Rightarrow> False)"

text \<open>\<open>x + d\<close> for a score \<open>x\<close> that may be \<open>undefined\<close> or \<open>NaN\<close> and a number \<open>d\<close>.\<close>

definition js_plus :: "jsnum option \<Rightarrow> int \<Rightarrow> jsnum" where
  "js_plus x d = (case x of Some (Num s) \<Rightarrow> Num (s + d) | _ \<Rightarrow> NaN)"

subsection \<open>The session\<close>

text \<open>
  A socket is known by its identity; the environment keeps its \<open>readyState\<close> and the
  messages handed to its \<open>send\<close>, in the order of the calls.
\<close>

type_synonym ws = nat

datatype ready_state = CONNECTING | OPEN | CLOSING | CLOSED

record coord =
  row :: int
  col :: int

text \<open>
  \<open>PlayerState\<close>, the move a client sends. The client fills \<open>dices\<close> with two numbers
  before it sends a move, the pair \<open>(dices[0], dices[1])\<close>.
\<close>

record PlayerState =
  from_cell :: coord
  to_cell :: coord
  color :: string
  moved :: bool
  sum_field :: int
  dices :: "int \<times> int"

datatype server_message =
    gameStarted bool game_field string int
  | changePlayer bool game_field string
  | gameResult bool
  | gameAborted
  | incorrectRequest string

text \<open>
  What \<open>JSON.parse\<close> gives: the value \<open>null\<close>, or a value that is read by its \<open>type\<close>.
  A \<open>playerMove\<close> carries \<open>message.move\<close>, which is \<open>None\<close> when the message has no
  \<open>move\<close> (or has \<open>null\<close> there); a move that is an object is read with the fields of
  \<open>PlayerState\<close>. \<open>unknownType\<close> is a value of any other type, or of none (an object
  without \<open>type\<close>, a number, a string, a boolean, an array, where \<open>type\<close> reads
  \<open>undefined\<close>), with the text that the template literal makes of the type.
  \<open>unprintableType\<close> is an object whose \<open>type\<close> is an object that has no conversion to a
  string (an object whose own \<open>toString\<close> is a number, say): the template literal throws
  on it.
\<close>

datatype client_message =
    nullValue
  | playerMove "PlayerState option"
  | repeatGame
  | incorrectRequestMessage string
  | incorrectResponse string
  | unknownType string
  | unprintableType

text \<open>
  The payload of a \<open>message\<close> event: not a string, a string that \<open>JSON.parse\<close> rejects
  (with the text of the error), or a string that parses, with the value it parses to.
\<close>

datatype payload = NotAString | Unparsable string | Parsed client_message

text \<open>
  The fields of a \<open>Game\<close> (\<open>destroyReplaced\<close>: the object's \<open>destroy\<close> has been replaced
  by the empty function) and, with them, the environment.
\<close>

record game =
  session :: "ws list option"
  playersState :: "(ws \<rightharpoonup> jsnum) option"
  gameField :: game_field
  currentMove :: "ws option"
  destroyReplaced :: bool
  readyState :: "ws \<Rightarrow> ready_state"
  sent :: "(ws \<times> server_message) list"

text \<open>
  \<open>_sendMessage\<close> serialises the message at once and hands it to the socket; a failure
  of the socket rejects a promise that only reports it.
\<close>

definition sendMessage :: "ws \<Rightarrow> server_message \<Rightarrow> game \<Rightarrow> game" where
  "sendMessage player message g = g\<lparr>sent := sent g @ [(player, message)]\<rparr>"

text \<open>\<open>_sendStartMessage\<close>: a fresh board and fresh scores; the first socket moves first.\<close>

fun startLoop :: "ws list \<Rightarrow> bool \<Rightarrow> string \<Rightarrow> game \<Rightarrow> game option" where
  "startLoop [] dataMyTurn dataColor g = Some g"
| "startLoop (player # players) dataMyTurn dataColor g =
     do { scores \<leftarrow> playersState g;
          let g = sendMessage player (gameStarted dataMyTurn (gameField g) dataColor 0) g;
          let g = g\<lparr>playersState := Some (scores(player \<mapsto> Num 0))\<rparr>;
          startLoop players False ''b'' g }"

definition sendStartMessage :: "game \<Rightarrow> game option" where
  "sendStartMessage g =
     do { let g = g\<lparr>gameField := generateField []\<rparr>;
          let g = g\<lparr>playersState := Some Map.empty\<rparr>;
          players \<leftarrow> session g;
          let g = g\<lparr>currentMove := elemAt players 0\<rparr>;
          startLoop players True ''r'' g }"

text \<open>The constructor keeps the session and sends the start messages.\<close>

definition newGame :: "ws list \<Rightarrow> (ws \<Rightarrow> ready_state) \<Rightarrow> game option" where
  "newGame players states =
     sendStartMessage
       \<lparr>session = Some players, playersState = None, gameField = [], currentMove = None,
        destroyReplaced = False, readyState = states, sent = []\<rparr>"

text \<open>
  \<open>_onPlayerMove\<close>. The block under \<open>if (currentPlayerMove.sum === 0)\<close> either leaves the
  handler after the reply \<open>'wrong move'\<close> or goes on with the board filled.
\<close>

datatype 'a flow = Return 'a | Continue 'a

definition checkedMove :: "game \<Rightarrow> ws \<Rightarrow> PlayerState \<Rightarrow> game flow option" where
  "checkedMove g currentPlayer currentPlayerMove =
     do { fieldEmpty \<leftarrow> isFieldEmpty (gameField g);
          if fieldEmpty
          then do {
            ok \<leftarrow> checkFirstMove (gameField g)
                    (row (from_cell currentPlayerMove)) (col (from_cell currentPlayerMove))
                    (row (to_cell currentPlayerMove)) (col (to_cell currentPlayerMove))
                    (dices currentPlayerMove);
            if \<not> ok
            then Some (Return (sendMessage currentPlayer (incorrectRequest ''wrong move'') g))
            else do {
              field \<leftarrow> fillField (color currentPlayerMove) (gameField g)
                         (row (from_cell currentPlayerMove)) (col (from_cell currentPlayerMove))
                         (row (to_cell currentPlayerMove)) (col (to_cell currentPlayerMove));
              Some (Continue (g\<lparr>gameField := field\<rparr>)) } }
          else do {
            cornerEmpty \<leftarrow> isCornerEmpty (gameField g);
            from \<leftarrow> (if cornerEmpty then findFirstMove (gameField g)
                      else findCurrentMove (gameField g) (color currentPlayerMove));
            ok \<leftarrow> checkMove from (gameField g)
                    (row (from_cell currentPlayerMove)) (col (from_cell currentPlayerMove))
                    (row (to_cell currentPlayerMove)) (col (to_cell currentPlayerMove))
                    (dices currentPlayerMove) (color currentPlayerMove);
            if \<not> ok
            then Some (Return (sendMessage currentPlayer (incorrectRequest ''wrong move'') g))
            else do {
              field \<leftarrow> fillField (color currentPlayerMove) (gameField g)
                         (row (from_cell currentPlayerMove)) (col (from_cell currentPlayerMove))
                         (row (to_cell currentPlayerMove)) (col (to_cell currentPlayerMove));
              Some (Continue (g\<lparr>gameField := field\<rparr>)) } } }"

text \<open>
  The rest of the handler, from the update of the score on: the win flag and the other
  player are found in one loop over the session.
\<close>

definition scoreAndTurn :: "game \<Rightarrow> ws \<Rightarrow> PlayerState \<Rightarrow> game option" where
  "scoreAndTurn g currentPlayer currentPlayerMove =
     do { scores \<leftarrow> playersState g;
          let scores = scores(currentPlayer \<mapsto>
                js_plus (Some (js_plus (scores currentPlayer) (fst (dices currentPlayerMove))))
                  (snd (dices currentPlayerMove)));
          let g = g\<lparr>playersState := Some scores\<rparr>;
          players \<leftarrow> session g;
          let (winFlag, player2) =
                fold (\<lambda>player (winFlag, player2).
                        (winFlag \<or> checkWin (scores player),
                         if player \<noteq> currentPlayer then player else player2))
                  players (False, currentPlayer);
          let g = g\<lparr>currentMove := Some player2\<rparr>;
          if \<not> winFlag
          then Some (sendMessage currentPlayer
                       (changePlayer False (gameField g) (color currentPlayerMove))
                    (sendMessage player2
                       (changePlayer True (gameField g)
                          (if color currentPlayerMove = ''r'' then ''b'' else ''r''))
                     g))
          else Some (fold (\<lambda>player. sendMessage player (gameResult (checkWin (scores player))))
                       players g) }"

definition onPlayerMove :: "game \<Rightarrow> ws \<Rightarrow> PlayerState \<Rightarrow> game option" where
  "onPlayerMove g currentPlayer currentPlayerMove =
     (if currentMove g \<noteq> Some currentPlayer
      then Some (sendMessage currentPlayer (incorrectRequest ''Not your turn'') g)
      else if sum_field currentPlayerMove = 0
      then do { checked \<leftarrow> checkedMove g currentPlayer currentPlayerMove;
                case checked of
                  Return g \<Rightarrow> Some g
                | Continue g \<Rightarrow> scoreAndTurn g currentPlayer currentPlayerMove }
      else scoreAndTurn g currentPlayer currentPlayerMove)"

text \<open>
  \<open>_onPlayerMove\<close> when \<open>message.move\<close> is \<open>undefined\<close> or \<open>null\<close>: the test of the turn
  does not read the move, and \<open>currentPlayerMove.sum\<close> throws.
\<close>

definition onPlayerMoveUndefined :: "game \<Rightarrow> ws \<Rightarrow> game option" where
  "onPlayerMoveUndefined g currentPlayer =
     (if currentMove g \<noteq> Some currentPlayer
      then Some (sendMessage currentPlayer (incorrectRequest ''Not your turn'') g)
      else None)"

text \<open>
  \<open>_parseMessage\<close> and \<open>_processMessage\<close>, and the listener that chains them. The listener
  catches nothing: \<open>message.type\<close> throws when the message is \<open>null\<close>, the template literal
  of the default branch throws on a type that has no conversion to a string, and what
  \<open>_onPlayerMove\<close> throws leaves the listener too. In each case nothing has been sent and no
  field has been written.
\<close>

definition parseMessage :: "payload \<Rightarrow> client_message" where
  "parseMessage data =
     (case data of
        NotAString \<Rightarrow> incorrectRequestMessage ''Wrong data type''
      | Unparsable error \<Rightarrow>
          incorrectRequestMessage (''Can'' @ [CHR 0x27] @ ''t parse JSON data: '' @ error)
      | Parsed message \<Rightarrow> message)"

definition processMessage :: "game \<Rightarrow> ws \<Rightarrow> client_message \<Rightarrow> game option" where
  "processMessage g player message =
     (case message of
        nullValue \<Rightarrow> None
      | playerMove move \<Rightarrow>
          (case move of
             None \<Rightarrow> onPlayerMoveUndefined g player
           | Some currentPlayerMove \<Rightarrow> onPlayerMove g player currentPlayerMove)
      | repeatGame \<Rightarrow> sendStartMessage g
      | incorrectRequestMessage text \<Rightarrow> Some (sendMessage player (incorrectRequest text) g)
      | incorrectResponse text \<Rightarrow> Some g
      | unknownType type \<Rightarrow>
          Some (sendMessage player
                  (incorrectRequest (''Unknown message type: '' @ [CHR 0x22] @ type @ [CHR 0x22]))
                  g)
      | unprintableType \<Rightarrow> None)"

definition onMessage :: "game \<Rightarrow> ws \<Rightarrow> payload \<Rightarrow> game option" where
  "onMessage g player data = processMessage g player (parseMessage data)"

text \<open>
  \<open>destroy\<close>. The first call replaces the method by the empty function, tells every
  socket that is neither closed nor closing that the game is aborted, closes it, and
  forgets the session and the scores. \<open>close()\<close> of the socket library moves the socket
  to \<open>CLOSING\<close>; its \<open>close\<close> event later calls \<open>destroy\<close> again.
\<close>

definition closeSocket :: "ws \<Rightarrow> game \<Rightarrow> game" where
  "closeSocket player g = g\<lparr>readyState := (readyState g)(player := CLOSING)\<rparr>"

definition abortPlayer :: "ws \<Rightarrow> game \<Rightarrow> game" where
  "abortPlayer player g =
     (if readyState g player \<noteq> CLOSED \<and> readyState g player \<noteq> CLOSING
      then closeSocket player (sendMessage player gameAborted g)
      else g)"

definition destroy :: "game \<Rightarrow> game option" where
  "destroy g =
     (if destroyReplaced g then Some g
      else do { let g = g\<lparr>destroyReplaced := True\<rparr>;
                players \<leftarrow> session g;
                let g = fold abortPlayer players g;
                Some (g\<lparr>session := None, playersState := None\<rparr>) })"

section \<open>Notions of the specification\<close>

text \<open>
  The definitions of this section are not functions of the source: they are the terms in
  which the properties of the server are stated, and the examples they are tried on.
\<close>

subsection \<open>Rectangles and reachable targets\<close>

text \<open>
  The rectangle spanned by two cells, whatever their order; a rectangle is empty when
  every one of its cells is on the board and unclaimed.
\<close>

definition inRect :: "int \<Rightarrow> int \<Rightarrow> int \<Rightarrow> int \<Rightarrow> int \<Rightarrow> int \<Rightarrow> bool" where
  "inRect rowFrom colFrom rowTo colTo i j =
     (min rowFrom rowTo \<le> i \<and> i \<le> max rowFrom rowTo \<and> min colFrom colTo \<le> j \<and> j \<le> max colFrom colTo)"

definition rectEmpty :: "game_field \<Rightarrow> int \<Rightarrow> int \<Rightarrow> int \<Rightarrow> int \<Rightarrow> bool" where
  "rectEmpty field rowFrom colFrom rowTo colTo =
     (\<forall>i \<in> {min rowFrom rowTo..max rowFrom rowTo}. \<forall>j \<in> {min colFrom colTo..max colFrom colTo}.
        cellAt field i j = Some (Some default__cell))"

text \<open>The cell is a cell of the board; the board has 30 rows of 30 cells.\<close>

definition inGrid :: "game_field \<Rightarrow> int \<Rightarrow> int \<Rightarrow> bool" where
  "inGrid field i j = (0 \<le> i \<and> i < int (length field) \<and> 0 \<le> j \<and> j < int (length (field ! nat i)))"

definition wf_field :: "game_field \<Rightarrow> bool" where
  "wf_field field = (length field = 30 \<and> list_all (\<lambda>r. length r = 30) field)"

definition isCorner :: "int \<Rightarrow> int \<Rightarrow> bool" where
  "isCorner r c = ((r = 0 \<or> r = 29) \<and> (c = 0 \<or> c = 29))"

text \<open>
  The signs of an anchor corner point into the board: rows grow from row 0 and shrink from
  row 29, columns grow from column 0 and shrink otherwise. An anchor on neither row has
  no moves.
\<close>

definition rowSign :: "int list \<Rightarrow> int option" where
  "rowSign anchor =
     (if elemAt anchor 0 = Some 29 then Some (- 1)
      else if elemAt anchor 0 = Some 0 then Some 1 else None)"

definition colSign :: "int list \<Rightarrow> int" where
  "colSign anchor = (if elemAt anchor 1 = Some 0 then 1 else - 1)"

text \<open>
  A target is reachable from a start cell, for a dice total \<open>n\<close>, when it is the start cell
  displaced by \<open>(i - 1, n / i - 1)\<close> for a divisor \<open>i\<close> of \<open>n\<close>, in the directions of the
  anchor's signs.
\<close>

definition reachable :: "int list \<Rightarrow> int \<Rightarrow> int \<Rightarrow> int \<Rightarrow> int \<Rightarrow> int \<Rightarrow> bool" where
  "reachable anchor rowFrom colFrom rowTo colTo n =
     (case rowSign anchor of
        None \<Rightarrow> False
      | Some s \<Rightarrow>
          \<exists>i \<in> {1..n}. i dvd n \<and> rowTo = rowFrom + s * (i - 1)
                           \<and> colTo = colFrom + colSign anchor * (n div i - 1))"

text \<open>The board after a move has claimed its rectangle, cell by cell.\<close>

definition rectClaimed :: "game_field \<Rightarrow> PlayerState \<Rightarrow> game_field \<Rightarrow> bool" where
  "rectClaimed field m field' =
     (\<forall>i j. cellAt field' i j =
        (if inRect (row (from_cell m)) (col (from_cell m)) (row (to_cell m)) (col (to_cell m)) i j
         then Some (Some (cellType (color m))) else cellAt field i j))"

definition claimedCells :: "game_field \<Rightarrow> nat" where
  "claimedCells field = length (filter (\<lambda>c. c \<noteq> default__cell) (concat field))"

subsection \<open>The check of a move\<close>

text \<open>
  \<open>legalMove\<close> is the check that the block under \<open>sum === 0\<close> of \<open>_onPlayerMove\<close> runs before
  it fills the board, in the words of the source: \<open>_checkFirstMove\<close> on an empty board,
  otherwise the search of the anchor and \<open>_checkMove\<close>.
\<close>

definition legalMove :: "game_field \<Rightarrow> PlayerState \<Rightarrow> bool option" where
  "legalMove field m =
     do { fieldEmpty \<leftarrow> isFieldEmpty field;
          if fieldEmpty
          then checkFirstMove field (row (from_cell m)) (col (from_cell m))
                 (row (to_cell m)) (col (to_cell m)) (dices m)
          else do { cornerEmpty \<leftarrow> isCornerEmpty field;
                    from \<leftarrow> (if cornerEmpty then findFirstMove field
                              else findCurrentMove field (color m));
                    checkMove from field (row (from_cell m)) (col (from_cell m))
                      (row (to_cell m)) (col (to_cell m)) (dices m) (color m) } }"

text \<open>
  The check has three parts. The anchor corner of the move: the start cell itself on an
  empty board, the corner opposite the taken one while the other player has not moved, the
  corner of the move's colour afterwards.
\<close>

definition anchorCorner :: "game_field \<Rightarrow> PlayerState \<Rightarrow> int list option" where
  "anchorCorner field m =
     do { fieldEmpty \<leftarrow> isFieldEmpty field;
          if fieldEmpty then Some [row (from_cell m), col (from_cell m)]
          else do { cornerEmpty \<leftarrow> isCornerEmpty field;
                    if cornerEmpty then findFirstMove field else findCurrentMove field (color m) } }"

text \<open>
  The start cell: on the border rows and columns for the first move of a game, the anchor
  corner itself while that corner is free, and otherwise a free cell next to a cell of the
  colour. The third part is \<open>_makeMove\<close>: the target and the rectangle.
\<close>

definition startAllowed :: "game_field \<Rightarrow> int list \<Rightarrow> PlayerState \<Rightarrow> bool option" where
  "startAllowed field anchor m =
     do { fieldEmpty \<leftarrow> isFieldEmpty field;
          if fieldEmpty
          then Some (\<not> (row (from_cell m) > 0 \<and> row (from_cell m) < 29)
                     \<and> \<not> (col (from_cell m) > 0 \<and> col (from_cell m) < 29))
          else do { anchorRow \<leftarrow> (case elemAt anchor 0 of None \<Rightarrow> None | Some r \<Rightarrow> elemAt field r);
                    let anchorCell = (case elemAt anchor 1 of None \<Rightarrow> None | Some c \<Rightarrow> elemAt anchorRow c);
                    if anchorCell = Some default__cell
                    then Some (Some (row (from_cell m)) = elemAt anchor 0
                               \<and> Some (col (from_cell m)) = elemAt anchor 1)
                    else do { freeCells \<leftarrow> findFreeCells field (color m);
                              Some (checkTo freeCells (row (from_cell m)) (col (from_cell m))) } } }"

text \<open>The three rule violations, each found by a check that has come that far.\<close>

definition diceTotal :: "PlayerState \<Rightarrow> int" where
  "diceTotal m = fst (dices m) + snd (dices m)"

definition anchorMismatch :: "game_field \<Rightarrow> int list \<Rightarrow> PlayerState \<Rightarrow> bool" where
  "anchorMismatch field anchor m = (startAllowed field anchor m = Some False)"

definition unreachableTarget :: "game_field \<Rightarrow> int list \<Rightarrow> PlayerState \<Rightarrow> bool" where
  "unreachableTarget field anchor m =
     (startAllowed field anchor m = Some True
      \<and> \<not> reachable anchor (row (from_cell m)) (col (from_cell m))
             (row (to_cell m)) (col (to_cell m)) (diceTotal m))"

definition nonEmptyRectangle :: "game_field \<Rightarrow> int list \<Rightarrow> PlayerState \<Rightarrow> bool" where
  "nonEmptyRectangle field anchor m =
     (startAllowed field anchor m = Some True
      \<and> reachable anchor (row (from_cell m)) (col (from_cell m))
           (row (to_cell m)) (col (to_cell m)) (diceTotal m)
      \<and> \<not> rectEmpty field (row (from_cell m)) (col (from_cell m))
             (row (to_cell m)) (col (to_cell m))
      \<and> areCellsEmpty field (row (from_cell m)) (col (from_cell m))
             (row (to_cell m)) (col (to_cell m)) \<noteq> None)"

subsection \<open>Outcomes of a message\<close>

text \<open>
  A session of two sockets \<open>a\<close> and \<open>b\<close>. The state after an accepted move of \<open>p\<close>: the dice
  are added to the score of \<open>p\<close>, the turn is with the other socket, and the messages of the
  round follow the messages sent so far.
\<close>

definition otherPlayer :: "ws \<Rightarrow> ws \<Rightarrow> ws \<Rightarrow> ws" where
  "otherPlayer a b p = (if p = a then b else a)"

definition scoreOf :: "ws \<Rightarrow> game \<Rightarrow> jsnum option" where
  "scoreOf p g = (case playersState g of None \<Rightarrow> None | Some scores \<Rightarrow> scores p)"

definition addDice :: "jsnum option \<Rightarrow> PlayerState \<Rightarrow> jsnum" where
  "addDice score m = js_plus (Some (js_plus score (fst (dices m)))) (snd (dices m))"

definition roundMessages :: "ws \<Rightarrow> ws \<Rightarrow> ws \<Rightarrow> PlayerState \<Rightarrow> game \<Rightarrow> (ws \<times> server_message) list" where
  "roundMessages a b p m g =
     (if checkWin (scoreOf a g) \<or> checkWin (scoreOf b g)
      then [(a, gameResult (checkWin (scoreOf a g))), (b, gameResult (checkWin (scoreOf b g)))]
      else [(otherPlayer a b p,
               changePlayer True (gameField g) (if color m = ''r'' then ''b'' else ''r'')),
            (p, changePlayer False (gameField g) (color m))])"

definition afterMove :: "ws \<Rightarrow> ws \<Rightarrow> ws \<Rightarrow> PlayerState \<Rightarrow> game \<Rightarrow> game" where
  "afterMove a b p m g =
     (let g1 = g\<lparr>playersState := map_option (\<lambda>scores. scores(p \<mapsto> addDice (scores p) m))
                                     (playersState g),
                  currentMove := Some (otherPlayer a b p)\<rparr>
      in g1\<lparr>sent := sent g @ roundMessages a b p m g1\<rparr>)"

text \<open>
  The state after an error: one \<open>incorrectRequest\<close> for the sender, and nothing else
  changed. A move is rejected when that is all the handler did.
\<close>

definition replyError :: "game \<Rightarrow> ws \<Rightarrow> string \<Rightarrow> game" where
  "replyError g p text = g\<lparr>sent := sent g @ [(p, incorrectRequest text)]\<rparr>"

definition rejected :: "game \<Rightarrow> ws \<Rightarrow> game \<Rightarrow> bool" where
  "rejected g p g' =
     (g' = replyError g p ''Not your turn'' \<or> g' = replyError g p ''wrong move'')"

text \<open>
  The protocol errors: a payload that is not a string or does not parse, a parsed value
  of unknown type (any value but \<open>null\<close> whose type has a text), a \<open>playerMove\<close> out of
  turn, with or without a move. The rule violations: those that the check of a move with
  \<open>sum = 0\<close>, from the player whose turn it is, finds. The payloads on which the listener
  throws (\<open>null\<close>, a type without a text, a \<open>playerMove\<close> without a move from the player
  whose turn it is) are neither.
\<close>

fun protocolError :: "game \<Rightarrow> ws \<Rightarrow> payload \<Rightarrow> bool" where
  "protocolError g p NotAString = True"
| "protocolError g p (Unparsable error) = True"
| "protocolError g p (Parsed (unknownType type)) = True"
| "protocolError g p (Parsed (playerMove move)) = (currentMove g \<noteq> Some p)"
| "protocolError g p (Parsed message) = False"

fun ruleViolation :: "game \<Rightarrow> ws \<Rightarrow> payload \<Rightarrow> bool" where
  "ruleViolation g p (Parsed (playerMove (Some m))) =
     (currentMove g = Some p \<and> sum_field m = 0
      \<and> (case anchorCorner (gameField g) m of
            None \<Rightarrow> False
          | Some anchor \<Rightarrow>
              anchorMismatch (gameField g) anchor m \<or> unreachableTarget (gameField g) anchor m
              \<or> nonEmptyRectangle (gameField g) anchor m))"
| "ruleViolation g p data = False"

subsection \<open>Sequences of messages\<close>

text \<open>
  The moves of a game, handled one after the other; a move is accepted when the handler
  comes to the update of the score (which is when it is not rejected,
  \<open>accepted_iff_not_rejected\<close>), and \<open>acceptedTotals\<close> lists the dice totals of the
  accepted moves of one player.
\<close>

fun playMoves :: "game \<Rightarrow> (ws \<times> PlayerState) list \<Rightarrow> game option" where
  "playMoves g [] = Some g"
| "playMoves g ((p, m) # moves) = do { g' \<leftarrow> onPlayerMove g p m; playMoves g' moves }"

definition accepted :: "game \<Rightarrow> ws \<Rightarrow> PlayerState \<Rightarrow> bool" where
  "accepted g p m =
     (currentMove g = Some p
      \<and> (if sum_field m = 0 then legalMove (gameField g) m = Some True else True))"

fun acceptedTotals :: "ws \<Rightarrow> game \<Rightarrow> (ws \<times> PlayerState) list \<Rightarrow> int list" where
  "acceptedTotals q g [] = []"
| "acceptedTotals q g ((p, m) # moves) =
     (case onPlayerMove g p m of
        None \<Rightarrow> []
      | Some g' \<Rightarrow>
          (if p = q \<and> accepted g p m then [diceTotal m] else []) @ acceptedTotals q g' moves)"

text \<open>
  \<open>destroy\<close> called several times; the sockets that the first call notifies, in the order
  of the session, and the states of the sockets after it.
\<close>

fun destroyTimes :: "nat \<Rightarrow> game \<Rightarrow> game option" where
  "destroyTimes 0 g = Some g"
| "destroyTimes (Suc n) g = do { g' \<leftarrow> destroy g; destroyTimes n g' }"

fun notified :: "(ws \<Rightarrow> ready_state) \<Rightarrow> ws list \<Rightarrow> ws list" where
  "notified states [] = []"
| "notified states (player # players) =
     (if states player \<noteq> CLOSED \<and> states player \<noteq> CLOSING
      then player # notified (states(player := CLOSING)) players
      else notified states players)"

fun closedStates :: "(ws \<Rightarrow> ready_state) \<Rightarrow> ws list \<Rightarrow> ws \<Rightarrow> ready_state" where
  "closedStates states [] = states"
| "closedStates states (player # players) =
     closedStates
       (if states player \<noteq> CLOSED \<and> states player \<noteq> CLOSING
        then states(player := CLOSING) else states)
       players"

subsection \<open>Examples\<close>

text \<open>
  A move as a client sends it, and the game of the sockets 1 and 2 as the constructor
  leaves it (\<open>newGame_started\<close>); the same game with scores close to the end.
\<close>

definition aMove :: "int \<Rightarrow> int \<Rightarrow> int \<Rightarrow> int \<Rightarrow> string \<Rightarrow> int \<Rightarrow> int \<times> int \<Rightarrow> PlayerState" where
  "aMove rowFrom colFrom rowTo colTo c s d =
     \<lparr>from_cell = \<lparr>row = rowFrom, col = colFrom\<rparr>, to_cell = \<lparr>row = rowTo, col = colTo\<rparr>,
      color = c, moved = False, sum_field = s, dices = d\<rparr>"

definition startedGame :: game where
  "startedGame =
     \<lparr>session = Some [1, 2],
      playersState = Some [1 \<mapsto> Num 0, 2 \<mapsto> Num 0],
      gameField = generateField [],
      currentMove = Some 1,
      destroyReplaced = False,
      readyState = (\<lambda>player. OPEN),
      sent = [(1, gameStarted True (generateField []) ''r'' 0),
              (2, gameStarted False (generateField []) ''b'' 0)]\<rparr>"

definition nearWin :: game where
  "nearWin = startedGame\<lparr>playersState := Some [1 \<mapsto> Num 444, 2 \<mapsto> Num 12]\<rparr>"

text \<open>
  Four legal moves from the start, two of each player, and the board they leave: the first
  column red down to row 23, the last four cells of row 29 blue.
\<close>

definition fourMoves :: "(ws \<times> PlayerState) list" where
  "fourMoves =
     [(1, aMove 0 0 11 0 ''r'' 0 (6, 6)), (2, aMove 29 29 29 28 ''b'' 0 (1, 1)),
      (1, aMove 12 0 23 0 ''r'' 0 (6, 6)), (2, aMove 29 27 29 26 ''b'' 0 (1, 1))]"

definition columnBoard :: game_field where
  "columnBoard =
     replicate 24 (red__cell # replicate 29 default__cell)
     @ replicate 5 (replicate 30 default__cell)
     @ [replicate 26 default__cell @ replicate 4 blue__cell]"

definition boardAndTurn :: "game option \<Rightarrow> (game_field \<times> ws option) option" where
  "boardAndTurn result = map_option (\<lambda>g. (gameField g, currentMove g)) result"

section \<open>Move geometry: the displacement set\<close>

lemma js_filter_sparse_set:
  "length arr \<le> k \<Longrightarrow>
   js_filter (\<lambda>item. True) (sparse_set arr k v) = js_filter (\<lambda>item. True) arr @ [v]"
  by (simp add: js_filter_def sparse_set_def)

lemma length_sparse_set: "length arr \<le> k \<Longrightarrow> length (sparse_set arr k v) = Suc k"
  by (simp add: sparse_set_def)

lemma factorizationLoop_dense:
  "1 \<le> i \<Longrightarrow> length numbers \<le> nat (i - 1) \<Longrightarrow>
   js_filter (\<lambda>item. True) (factorizationLoop n i numbers) =
   js_filter (\<lambda>item. True) numbers @
     map (\<lambda>k. (k - 1, n div k - 1)) (filter (\<lambda>k. n mod k = 0) [i..n])"
proof (induction n i numbers rule: factorizationLoop.induct)
  case (1 n i numbers)
  show ?case
  proof (cases "i \<le> n")
    case False
    then show ?thesis
      by (subst factorizationLoop.simps) simp
  next
    case True
    let ?next = "if n mod i = 0 then sparse_set numbers (nat (i - 1)) (i - 1, n div i - 1)
                 else numbers"
    have len: "length ?next \<le> nat (i + 1 - 1)"
      using "1.prems" by (auto simp: length_sparse_set)
    have step: "js_filter (\<lambda>item. True) (factorizationLoop n (i + 1) ?next) =
                js_filter (\<lambda>item. True) ?next @
                  map (\<lambda>k. (k - 1, n div k - 1)) (filter (\<lambda>k. n mod k = 0) [i + 1..n])"
      using "1.IH" [OF True _ len] "1.prems" by simp
    have unfold: "factorizationLoop n i numbers = factorizationLoop n (i + 1) ?next"
      using True by (subst factorizationLoop.simps) simp
    have range: "[i..n] = i # [i + 1..n]"
      using True by (simp add: upto_rec1)
    show ?thesis
      unfolding unfold step range
      using "1.prems" by (simp add: js_filter_sparse_set)
  qed
qed

lemma factorization_eq:
  "factorization n = map (\<lambda>k. (k - 1, n div k - 1)) (filter (\<lambda>k. n mod k = 0) [1..n])"
proof -
  have "js_filter (\<lambda>item. True) ([] :: (int \<times> int) option list) = []"
    by (simp add: js_filter_def)
  with factorizationLoop_dense [of 1 "[]" n] show ?thesis
    by (simp add: factorization_def)
qed

lemma checkTo_fold:
  "fold (\<lambda>item flag. if fst item = r \<and> snd item = c then True else flag) moves flag
   = (flag \<or> (r, c) \<in> set moves)"
proof (induction moves arbitrary: flag)
  case Nil
  show ?case by simp
next
  case (Cons item moves)
  show ?case
    by (cases item) (simp add: Cons.IH, blast)
qed

lemma checkTo_iff: "checkTo moves r c \<longleftrightarrow> (r, c) \<in> set moves"
  by (simp add: checkTo_def checkTo_fold)

section \<open>The board: reading, scanning and claiming a rectangle\<close>

lemma generateField_step:
  "fold (\<lambda>i defaultField.
           (defaultField @ [[]])[i := (defaultField @ [[]]) ! i @ replicate 30 default__cell])
     [0..<n] [] = replicate n (replicate 30 default__cell)"
proof (induction n)
  case 0
  show ?case by simp
next
  case (Suc n)
  have "(replicate n r @ [[]])[n := (replicate n r @ [[]]) ! n @ r] = replicate (Suc n) r"
    for r :: "cell list"
    using list_update_length [of "replicate n r" "[]" "[]" r]
    by (simp add: nth_append replicate_append_same)
  with Suc show ?case by simp
qed

lemma generateField_Nil: "generateField [] = replicate 30 (replicate 30 default__cell)"
  by (simp add: generateField_def generateField_step)

lemma bind_eq_Some_True:
  "(Option.bind x (\<lambda>b. if \<not> b then Some False else y) = Some True) \<longleftrightarrow> (x = Some True \<and> y = Some True)"
  by (cases x) auto

lemma cellIs_Some_True: "cellIs field i j type = Some True \<longleftrightarrow> cellAt field i j = Some (Some type)"
  by (cases "cellAt field i j") (auto simp: cellIs_def)

lemma emptyCols_iff:
  "emptyCols field i js = Some True \<longleftrightarrow> (\<forall>j \<in> set js. cellAt field i j = Some (Some default__cell))"
  by (induction js) (simp_all add: bind_eq_Some_True cellIs_Some_True)

lemma emptyRows_iff:
  "emptyRows field is js = Some True \<longleftrightarrow>
   (\<forall>i \<in> set is. \<forall>j \<in> set js. cellAt field i j = Some (Some default__cell))"
  by (induction "is") (simp_all add: bind_eq_Some_True emptyCols_iff)

lemma rect_bounds:
  "(if rowFrom < rowTo then rowFrom else rowTo) = min rowFrom (rowTo :: int)"
  "(if min rowFrom rowTo = rowTo then rowFrom else rowTo) = max rowFrom rowTo"
  by (auto simp: min_def max_def)

lemma areCellsEmpty_iff:
  "areCellsEmpty field rowFrom colFrom rowTo colTo = Some True \<longleftrightarrow>
   rectEmpty field rowFrom colFrom rowTo colTo"
  by (simp add: areCellsEmpty_def Let_def rect_bounds emptyRows_iff rectEmpty_def)

lemma inGrid_cellAt: "inGrid field i j \<longleftrightarrow> (\<exists>c. cellAt field i j = Some (Some c))"
  by (auto simp: inGrid_def cellAt_def elemAt_def split: option.splits if_splits)

lemma setCell_Some:
  "inGrid field i j \<Longrightarrow> setCell field i j type = Some (field[nat i := (field ! nat i)[nat j := type]])"
  by (simp add: inGrid_def setCell_def elemAt_def)

lemma setCell_None: "\<not> inGrid field i j \<Longrightarrow> setCell field i j type = None"
  by (auto simp: inGrid_def setCell_def elemAt_def)

lemma cellAt_update:
  assumes "inGrid field i j"
  shows "cellAt (field[nat i := (field ! nat i)[nat j := type]]) i' j' =
         (if i' = i \<and> j' = j then Some (Some type) else cellAt field i' j')"
proof -
  have i: "0 \<le> i" "nat i < length field" "i < int (length field)"
    and j: "0 \<le> j" "nat j < length (field ! nat i)" "j < int (length (field ! nat i))"
    using assms by (auto simp: inGrid_def)
  show ?thesis
  proof (cases "0 \<le> i' \<and> i' < int (length field)")
    case False
    then show ?thesis using i by (auto simp: cellAt_def elemAt_def)
  next
    case True
    then have i': "nat i' < length field" by auto
    show ?thesis
    proof (cases "i' = i")
      case False
      then have "nat i' \<noteq> nat i" using True i by auto
      then show ?thesis using True False by (simp add: cellAt_def elemAt_def)
    next
      case same: True
      show ?thesis
      proof (cases "0 \<le> j' \<and> j' < int (length (field ! nat i))")
        case False
        then show ?thesis using True same i j by (auto simp: cellAt_def elemAt_def)
      next
        case inrow: True
        show ?thesis
        proof (cases "j' = j")
          case True
          then show ?thesis using same i j by (simp add: cellAt_def elemAt_def)
        next
          case False
          then have "nat j' \<noteq> nat j" using inrow j by auto
          then show ?thesis using True same inrow False i by (simp add: cellAt_def elemAt_def)
        qed
      qed
    qed
  qed
qed

lemma setCell_cellAt:
  "setCell field i j type = Some field' \<Longrightarrow>
   cellAt field' i' j' = (if i' = i \<and> j' = j then Some (Some type) else cellAt field i' j')"
  by (cases "inGrid field i j") (auto simp: setCell_Some setCell_None cellAt_update)

lemma setCell_inGrid:
  assumes "setCell field i j type = Some field'"
  shows "inGrid field' i' j' = inGrid field i' j'"
proof -
  have "inGrid field i j"
    using assms setCell_None [of field i j type] by (cases "inGrid field i j") auto
  then show ?thesis
    using setCell_cellAt [OF assms, of i' j'] by (auto simp: inGrid_cellAt)
qed

lemma fillCols_Some:
  "\<forall>j \<in> set js. inGrid field i j \<Longrightarrow>
   \<exists>field'. fillCols type field i js = Some field' \<and>
     (\<forall>i' j'. cellAt field' i' j' =
        (if i' = i \<and> j' \<in> set js then Some (Some type) else cellAt field i' j'))"
proof (induction js arbitrary: field)
  case Nil
  show ?case by simp
next
  case (Cons j js)
  let ?f1 = "field[nat i := (field ! nat i)[nat j := type]]"
  have s: "setCell field i j type = Some ?f1"
    using Cons.prems by (simp add: setCell_Some)
  have "\<forall>j' \<in> set js. inGrid ?f1 i j'"
    using Cons.prems setCell_inGrid [OF s] by simp
  from Cons.IH [OF this] obtain field' where
    f: "fillCols type ?f1 i js = Some field'" and
    c: "\<And>i' j'. cellAt field' i' j' =
        (if i' = i \<and> j' \<in> set js then Some (Some type) else cellAt ?f1 i' j')"
    by blast
  have "fillCols type field i (j # js) = Some field'"
    using s f by simp
  moreover have "cellAt field' i' j' =
        (if i' = i \<and> j' \<in> set (j # js) then Some (Some type) else cellAt field i' j')" for i' j'
    using c [of i' j'] setCell_cellAt [OF s, of i' j'] by auto
  ultimately show ?case by blast
qed

lemma fillRows_Some:
  "\<forall>i \<in> set is. \<forall>j \<in> set js. inGrid field i j \<Longrightarrow>
   \<exists>field'. fillRows type field is js = Some field' \<and>
     (\<forall>i' j'. cellAt field' i' j' =
        (if i' \<in> set is \<and> j' \<in> set js then Some (Some type) else cellAt field i' j'))"
proof (induction "is" arbitrary: field)
  case Nil
  show ?case by simp
next
  case (Cons i "is")
  have "\<forall>j \<in> set js. inGrid field i j"
    using Cons.prems by simp
  from fillCols_Some [OF this, of type] obtain f1 where
    f1: "fillCols type field i js = Some f1" and
    c1: "\<And>i' j'. cellAt f1 i' j' =
        (if i' = i \<and> j' \<in> set js then Some (Some type) else cellAt field i' j')"
    by blast
  have "\<forall>i' \<in> set is. \<forall>j \<in> set js. inGrid f1 i' j"
    using Cons.prems c1 by (auto simp: inGrid_cellAt)
  from Cons.IH [OF this] obtain field' where
    f: "fillRows type f1 is js = Some field'" and
    c: "\<And>i' j'. cellAt field' i' j' =
        (if i' \<in> set is \<and> j' \<in> set js then Some (Some type) else cellAt f1 i' j')"
    by blast
  have "fillRows type field (i # is) js = Some field'"
    using f1 f by simp
  moreover have "cellAt field' i' j' =
        (if i' \<in> set (i # is) \<and> j' \<in> set js then Some (Some type) else cellAt field i' j')" for i' j'
    using c [of i' j'] c1 [of i' j'] by auto
  ultimately show ?case by blast
qed

lemma fillField_Some:
  assumes "rectEmpty field rowFrom colFrom rowTo colTo"
  shows "\<exists>field'. fillField c field rowFrom colFrom rowTo colTo = Some field' \<and>
     (\<forall>i j. cellAt field' i j =
        (if inRect rowFrom colFrom rowTo colTo i j then Some (Some (cellType c)) else cellAt field i j))"
proof -
  have "\<forall>i \<in> set [min rowFrom rowTo..max rowFrom rowTo].
          \<forall>j \<in> set [min colFrom colTo..max colFrom colTo]. inGrid field i j"
    using assms by (auto simp: rectEmpty_def inGrid_cellAt)
  from fillRows_Some [OF this, of "cellType c"] show ?thesis
    by (simp add: fillField_def Let_def rect_bounds inRect_def)
qed

section \<open>Reachable targets\<close>

lemma set_factorization:
  "set (factorization n) = (\<lambda>i. (i - 1, n div i - 1)) ` {i \<in> {1..n}. i dvd n}"
  by (auto simp: factorization_eq mod_eq_0_iff_dvd)

lemma js_filter_map_Some: "js_filter (\<lambda>item. True) (map (\<lambda>x. Some (f x)) xs) = map f xs"
  by (induction xs) (simp_all add: js_filter_def)

lemma showMoves_eq:
  "showMoves primeNumbers firstSign secondSign r c =
   map (\<lambda>item. (if firstSign = ''+'' then fst item + r else r - fst item,
                   if secondSign = ''+'' then snd item + c else c - snd item)) primeNumbers"
  unfolding showMoves_def by (rule js_filter_map_Some)

lemma set_showMoves:
  "set (showMoves primeNumbers firstSign secondSign r c) =
   (\<lambda>item. (if firstSign = ''+'' then fst item + r else r - fst item,
             if secondSign = ''+'' then snd item + c else c - snd item)) ` set primeNumbers"
  by (simp add: showMoves_eq)

lemma and_also_Some: "and_also (Some a) b = (if a then b else Some False)"
  by (simp add: and_also_def)

lemma possibleMoves_iff:
  "makeMove field anchor rowFrom colFrom rowTo colTo d =
   (if reachable anchor rowFrom colFrom rowTo colTo (fst d + snd d)
    then areCellsEmpty field rowFrom colFrom rowTo colTo else Some False)"
proof -
  let ?n = "fst d + snd d"
  consider (top) "elemAt anchor 0 = Some 0" | (bottom) "elemAt anchor 0 = Some 29"
    | (none) "elemAt anchor 0 \<noteq> Some 0" "elemAt anchor 0 \<noteq> Some 29"
    by blast
  then show ?thesis
  proof cases
    case top
    then have s: "rowSign anchor = Some 1" by (simp add: rowSign_def)
    show ?thesis
      using top
      by (auto simp: makeMove_def Let_def and_also_Some checkTo_iff set_showMoves
          set_factorization reachable_def s colSign_def image_iff algebra_simps)
  next
    case bottom
    then have s: "rowSign anchor = Some (- 1)" by (simp add: rowSign_def)
    show ?thesis
      using bottom
      by (auto simp: makeMove_def Let_def and_also_Some checkTo_iff set_showMoves
          set_factorization reachable_def s colSign_def image_iff algebra_simps)
  next
    case none
    then have s: "rowSign anchor = None" by (simp add: rowSign_def)
    show ?thesis
      using none
      by (simp add: makeMove_def Let_def and_also_Some checkTo_def reachable_def s)
  qed
qed

section \<open>The check of the handler\<close>

lemma checkMove_startAllowed:
  assumes "isFieldEmpty field = Some False"
  shows "checkMove anchor field (row (from_cell m)) (col (from_cell m))
           (row (to_cell m)) (col (to_cell m)) (dices m) (color m) =
         do { start \<leftarrow> startAllowed field anchor m;
              if start
              then makeMove field anchor (row (from_cell m)) (col (from_cell m))
                     (row (to_cell m)) (col (to_cell m)) (dices m)
              else Some False }"
proof (cases "case elemAt anchor 0 of None \<Rightarrow> None | Some r \<Rightarrow> elemAt field r")
  case None
  then show ?thesis
    using assms by (simp add: checkMove_def startAllowed_def)
next
  case (Some anchorRow)
  show ?thesis
  proof (cases "(case elemAt anchor 1 of None \<Rightarrow> None | Some c \<Rightarrow> elemAt anchorRow c)
                = Some default__cell")
    case True
    then show ?thesis
      using assms Some by (auto simp: checkMove_def startAllowed_def)
  next
    case False
    then show ?thesis
      using assms Some
      by (cases "findFreeCells field (color m)") (simp_all add: checkMove_def startAllowed_def)
  qed
qed

lemma checkedMove_legalMove:
  "checkedMove g p m =
     do { ok \<leftarrow> legalMove (gameField g) m;
          if \<not> ok then Some (Return (sendMessage p (incorrectRequest ''wrong move'') g))
          else do { field \<leftarrow> fillField (color m) (gameField g)
                              (row (from_cell m)) (col (from_cell m))
                              (row (to_cell m)) (col (to_cell m));
                    Some (Continue (g\<lparr>gameField := field\<rparr>)) } }"
proof (cases "isFieldEmpty (gameField g)")
  case None
  then show ?thesis
    by (simp add: checkedMove_def legalMove_def)
next
  case (Some fieldEmpty)
  show ?thesis
  proof (cases fieldEmpty)
    case True
    then show ?thesis
      using Some by (simp add: checkedMove_def legalMove_def)
  next
    case False
    with Some have later: "isFieldEmpty (gameField g) = Some False" by simp
    show ?thesis
    proof (cases "isCornerEmpty (gameField g)")
      case None
      then show ?thesis
        using later by (simp add: checkedMove_def legalMove_def)
    next
      case (Some cornerEmpty)
      show ?thesis
      proof (cases "if cornerEmpty then findFirstMove (gameField g)
                    else findCurrentMove (gameField g) (color m)")
        case None
        then show ?thesis
          using later Some by (simp add: checkedMove_def legalMove_def)
      next
        case (Some anchor)
        then show ?thesis
          using later \<open>isCornerEmpty (gameField g) = Some cornerEmpty\<close>
          by (simp add: checkedMove_def legalMove_def)
      qed
    qed
  qed
qed

lemma legalMove_decomp:
  "legalMove field m =
     do { anchor \<leftarrow> anchorCorner field m;
          start \<leftarrow> startAllowed field anchor m;
          if start
          then makeMove field anchor (row (from_cell m)) (col (from_cell m))
                 (row (to_cell m)) (col (to_cell m)) (dices m)
          else Some False }"
proof (cases "isFieldEmpty field")
  case None
  then show ?thesis
    by (simp add: legalMove_def anchorCorner_def)
next
  case (Some fieldEmpty)
  show ?thesis
  proof (cases fieldEmpty)
    case True
    then show ?thesis
      using Some
      by (simp add: legalMove_def anchorCorner_def startAllowed_def checkFirstMove_def)
  next
    case False
    with Some have later: "isFieldEmpty field = Some False" by simp
    show ?thesis
    proof (cases "isCornerEmpty field")
      case None
      then show ?thesis using later by (simp add: legalMove_def anchorCorner_def)
    next
      case (Some cornerEmpty)
      then show ?thesis
        using later by (simp add: legalMove_def anchorCorner_def checkMove_startAllowed)
    qed
  qed
qed

section \<open>The handler\<close>

lemma addDice_Num: "addDice (Some (Num s)) m = Num (s + diceTotal m)"
  by (simp add: addDice_def js_plus_def diceTotal_def)

lemma scoreAndTurn_two:
  assumes "session g = Some [a, b]" and "a \<noteq> b" and "p = a \<or> p = b"
    and "playersState g = Some scores"
  shows "scoreAndTurn g p m = Some (afterMove a b p m g)"
  using assms
  by (auto simp: scoreAndTurn_def afterMove_def roundMessages_def Let_def sendMessage_def
      scoreOf_def otherPlayer_def addDice_def)

lemma onPlayerMove_cases:
  "onPlayerMove g p m =
     (if currentMove g \<noteq> Some p then Some (replyError g p ''Not your turn'')
      else if sum_field m = 0
      then (case legalMove (gameField g) m of
              None \<Rightarrow> None
            | Some ok \<Rightarrow>
                if ok
                then (case fillField (color m) (gameField g)
                             (row (from_cell m)) (col (from_cell m))
                             (row (to_cell m)) (col (to_cell m)) of
                        None \<Rightarrow> None
                      | Some field \<Rightarrow> scoreAndTurn (g\<lparr>gameField := field\<rparr>) p m)
                else Some (replyError g p ''wrong move''))
      else scoreAndTurn g p m)"
  by (simp add: onPlayerMove_def checkedMove_legalMove replyError_def sendMessage_def
      split: option.splits)

lemma scoreAndTurn_Some:
  "scoreAndTurn g p m = Some g' \<Longrightarrow> \<exists>scores. playersState g = Some scores"
  by (cases "playersState g") (simp_all add: scoreAndTurn_def)

lemma afterMove_fields:
  "gameField (afterMove a b p m g) = gameField g"
  "currentMove (afterMove a b p m g) = Some (otherPlayer a b p)"
  "session (afterMove a b p m g) = session g"
  "destroyReplaced (afterMove a b p m g) = destroyReplaced g"
  "readyState (afterMove a b p m g) = readyState g"
  "playersState (afterMove a b p m g) =
     map_option (\<lambda>scores. scores(p \<mapsto> addDice (scores p) m)) (playersState g)"
  by (simp_all add: afterMove_def Let_def)

lemma roundMessages_sent [simp]:
  "roundMessages a b p m (g\<lparr>sent := x\<rparr>) = roundMessages a b p m g"
  by (simp add: roundMessages_def scoreOf_def)

lemma afterMove_sent:
  "sent (afterMove a b p m g) = sent g @ roundMessages a b p m (afterMove a b p m g)"
  by (simp add: afterMove_def Let_def)

lemma onPlayerMove_accepted:
  assumes "session g = Some [a, b]" and "a \<noteq> b" and "p = a \<or> p = b"
    and "onPlayerMove g p m = Some g'" and "\<not> rejected g p g'"
  shows "\<exists>field. g' = afterMove a b p m (g\<lparr>gameField := field\<rparr>)
           \<and> (sum_field m \<noteq> 0 \<longrightarrow> field = gameField g)
           \<and> (sum_field m = 0 \<longrightarrow> legalMove (gameField g) m = Some True
                 \<and> fillField (color m) (gameField g) (row (from_cell m)) (col (from_cell m))
                      (row (to_cell m)) (col (to_cell m)) = Some field)"
proof -
  have turn: "currentMove g = Some p"
    using assms(4,5) by (auto simp: onPlayerMove_cases rejected_def split: if_splits)
  show ?thesis
  proof (cases "sum_field m = 0")
    case False
    then have run: "scoreAndTurn g p m = Some g'"
      using assms(4) turn by (simp add: onPlayerMove_cases)
    then obtain scores where "playersState g = Some scores"
      using scoreAndTurn_Some by blast
    then have "scoreAndTurn g p m = Some (afterMove a b p m g)"
      using assms(1-3) by (simp add: scoreAndTurn_two)
    with run have "g' = afterMove a b p m (g\<lparr>gameField := gameField g\<rparr>)" by simp
    with False show ?thesis by blast
  next
    case True
    from assms(4,5) turn True obtain field where
      legal: "legalMove (gameField g) m = Some True" and
      fill: "fillField (color m) (gameField g) (row (from_cell m)) (col (from_cell m))
               (row (to_cell m)) (col (to_cell m)) = Some field" and
      run: "scoreAndTurn (g\<lparr>gameField := field\<rparr>) p m = Some g'"
      by (auto simp: onPlayerMove_cases rejected_def split: option.splits if_splits)
    from run obtain scores where "playersState (g\<lparr>gameField := field\<rparr>) = Some scores"
      using scoreAndTurn_Some by blast
    then have "scoreAndTurn (g\<lparr>gameField := field\<rparr>) p m
               = Some (afterMove a b p m (g\<lparr>gameField := field\<rparr>))"
      using assms(1-3) by (simp add: scoreAndTurn_two)
    with run have "g' = afterMove a b p m (g\<lparr>gameField := field\<rparr>)" by simp
    with True legal fill show ?thesis by blast
  qed
qed

section \<open>Boards of 30 rows and 30 columns\<close>

lemma elemAt_wf:
  "wf_field field \<Longrightarrow>
   elemAt field i = (if 0 \<le> i \<and> i < 30 then Some (field ! nat i) else None)"
  by (simp add: wf_field_def elemAt_def)

lemma wf_field_row: "wf_field field \<Longrightarrow> 0 \<le> i \<Longrightarrow> i < 30 \<Longrightarrow> length (field ! nat i) = 30"
  by (simp add: wf_field_def list_all_length)

lemma cellAt_wf:
  assumes "wf_field field"
  shows "cellAt field i j =
     (if 0 \<le> i \<and> i < 30
      then Some (if 0 \<le> j \<and> j < 30 then Some (field ! nat i ! nat j) else None)
      else None)"
proof (cases "0 \<le> i \<and> i < 30")
  case False
  then show ?thesis using assms by (auto simp: cellAt_def elemAt_wf)
next
  case True
  with assms have "length (field ! nat i) = 30" by (simp add: wf_field_row)
  then show ?thesis using True assms by (simp add: cellAt_def elemAt_wf) (simp add: elemAt_def)
qed

lemma wf_generateField: "wf_field (generateField [])"
  by (simp add: generateField_Nil wf_field_def list_all_length)

lemma cellAt_generateField:
  "cellAt (generateField []) i j =
     (if 0 \<le> i \<and> i < 30
      then Some (if 0 \<le> j \<and> j < 30 then Some default__cell else None)
      else None)"
proof (cases "0 \<le> i \<and> i < 30 \<and> 0 \<le> j \<and> j < 30")
  case False
  then show ?thesis by (auto simp: cellAt_wf [OF wf_generateField])
next
  case True
  then have "nat i < 30" "nat j < 30" by auto
  then have "generateField [] ! nat i ! nat j = default__cell"
    by (simp add: generateField_Nil)
  then show ?thesis using True by (simp add: cellAt_wf [OF wf_generateField])
qed

lemma emptyCols_total:
  "elemAt field i \<noteq> None \<Longrightarrow> emptyCols field i js \<noteq> None"
  by (induction js) (auto simp: cellIs_def cellAt_def)

lemma emptyRows_total:
  "\<forall>i \<in> set is. elemAt field i \<noteq> None \<Longrightarrow> emptyRows field is js \<noteq> None"
proof (induction "is")
  case Nil
  show ?case by simp
next
  case (Cons i "is")
  then obtain b where "emptyCols field i js = Some b"
    using emptyCols_total [of field i js] by auto
  then show ?case using Cons by (cases b) auto
qed

lemma areCellsEmpty_total:
  assumes "wf_field field" and "0 \<le> rowFrom" "rowFrom < 30" "0 \<le> rowTo" "rowTo < 30"
  shows "areCellsEmpty field rowFrom colFrom rowTo colTo
         = Some (rectEmpty field rowFrom colFrom rowTo colTo)"
proof -
  have "\<forall>i \<in> set [min rowFrom rowTo..max rowFrom rowTo]. elemAt field i \<noteq> None"
    using assms by (auto simp: elemAt_wf)
  then have "emptyRows field [min rowFrom rowTo..max rowFrom rowTo]
               [min colFrom colTo..max colFrom colTo] \<noteq> None"
    by (rule emptyRows_total)
  then obtain b where b: "areCellsEmpty field rowFrom colFrom rowTo colTo = Some b"
    by (auto simp: areCellsEmpty_def Let_def rect_bounds)
  then show ?thesis
    using areCellsEmpty_iff [of field rowFrom colFrom rowTo colTo] by auto
qed

lemma reachable_rows:
  assumes "reachable [r, c] r c rowTo colTo n" and "n \<le> 30"
  shows "(r = 0 \<or> r = 29) \<and> 0 \<le> rowTo \<and> rowTo < 30"
proof -
  from assms(1) obtain s i where
    s: "rowSign [r, c] = Some s" and i: "1 \<le> i" "i \<le> n" and to: "rowTo = r + s * (i - 1)"
    by (auto simp: reachable_def split: option.splits)
  from s have "(r = 0 \<and> s = 1) \<or> (r = 29 \<and> s = - 1)"
    by (auto simp: rowSign_def elemAt_def split: if_splits)
  then show ?thesis using i to assms(2) by auto
qed

lemma checkFirstMove_total:
  assumes "wf_field field" and "fst d + snd d \<le> 30"
  shows "checkFirstMove field rowFrom colFrom rowTo colTo d =
         Some (isCorner rowFrom colFrom
               \<and> reachable [rowFrom, colFrom] rowFrom colFrom rowTo colTo (fst d + snd d)
               \<and> rectEmpty field rowFrom colFrom rowTo colTo)"
proof (cases "reachable [rowFrom, colFrom] rowFrom colFrom rowTo colTo (fst d + snd d)")
  case False
  then show ?thesis
    by (simp add: checkFirstMove_def possibleMoves_iff)
next
  case True
  from reachable_rows [OF True assms(2)]
  have rows: "rowFrom = 0 \<or> rowFrom = 29" "0 \<le> rowTo" "rowTo < 30" by auto
  then have scan: "areCellsEmpty field rowFrom colFrom rowTo colTo
                   = Some (rectEmpty field rowFrom colFrom rowTo colTo)"
    using assms(1) by (auto simp: areCellsEmpty_total)
  have start: "rectEmpty field rowFrom colFrom rowTo colTo \<Longrightarrow> 0 \<le> colFrom \<and> colFrom < 30"
  proof -
    assume "rectEmpty field rowFrom colFrom rowTo colTo"
    then have "cellAt field rowFrom colFrom = Some (Some default__cell)"
      by (simp add: rectEmpty_def)
    then show ?thesis
      using assms(1) by (auto simp: cellAt_wf split: if_splits)
  qed
  show ?thesis
    using True rows scan start
    by (auto simp: checkFirstMove_def possibleMoves_iff isCorner_def)
qed

section \<open>Accepted and refused moves\<close>

lemma legalMove_True_iff:
  "legalMove field m = Some True \<longleftrightarrow>
   (\<exists>anchor. anchorCorner field m = Some anchor \<and> startAllowed field anchor m = Some True
      \<and> reachable anchor (row (from_cell m)) (col (from_cell m))
            (row (to_cell m)) (col (to_cell m)) (diceTotal m)
      \<and> rectEmpty field (row (from_cell m)) (col (from_cell m))
            (row (to_cell m)) (col (to_cell m)))"
proof (cases "anchorCorner field m")
  case None
  then show ?thesis by (simp add: legalMove_decomp)
next
  case (Some anchor)
  show ?thesis
  proof (cases "startAllowed field anchor m")
    case None
    then show ?thesis using Some by (simp add: legalMove_decomp)
  next
    case start: (Some start)
    show ?thesis
      using Some start
      by (simp add: legalMove_decomp possibleMoves_iff diceTotal_def areCellsEmpty_iff)
  qed
qed

lemma cellType_claimed: "cellType c \<noteq> default__cell"
  by (simp add: cellType_def)

lemma rectClaimed_changes:
  assumes "rectEmpty field (row (from_cell m)) (col (from_cell m)) (row (to_cell m)) (col (to_cell m))"
    and "rectClaimed field m field'"
  shows "field' \<noteq> field"
proof
  assume same: "field' = field"
  have inside: "inRect (row (from_cell m)) (col (from_cell m)) (row (to_cell m)) (col (to_cell m))
                  (row (from_cell m)) (col (from_cell m))"
    by (simp add: inRect_def)
  have "cellAt field (row (from_cell m)) (col (from_cell m)) = Some (Some default__cell)"
    using assms(1) by (simp add: rectEmpty_def)
  moreover have "cellAt field' (row (from_cell m)) (col (from_cell m))
                 = Some (Some (cellType (color m)))"
    using assms(2) inside by (simp add: rectClaimed_def)
  ultimately show False using same cellType_claimed [of "color m"] by simp
qed

lemma legal_fill:
  assumes "legalMove field m = Some True"
  shows "\<exists>field'. fillField (color m) field (row (from_cell m)) (col (from_cell m))
                     (row (to_cell m)) (col (to_cell m)) = Some field'
           \<and> rectClaimed field m field' \<and> field' \<noteq> field"
proof -
  from assms have empty: "rectEmpty field (row (from_cell m)) (col (from_cell m))
                            (row (to_cell m)) (col (to_cell m))"
    by (auto simp: legalMove_True_iff)
  from fillField_Some [OF this, of "color m"] obtain field' where
    "fillField (color m) field (row (from_cell m)) (col (from_cell m))
       (row (to_cell m)) (col (to_cell m)) = Some field'" and
    "rectClaimed field m field'"
    by (auto simp: rectClaimed_def)
  then show ?thesis using rectClaimed_changes [OF empty] by blast
qed

lemma checked_move_outcome:
  assumes "currentMove g = Some p" and "sum_field m = 0"
    and "session g = Some [a, b]" and "a \<noteq> b" and "p = a \<or> p = b"
    and "playersState g = Some scores"
    and "legalMove (gameField g) m = Some ok"
  shows "\<exists>g'. onPlayerMove g p m = Some g' \<and>
           (if ok
            then rectClaimed (gameField g) m (gameField g') \<and> gameField g' \<noteq> gameField g
                 \<and> g' = afterMove a b p m (g\<lparr>gameField := gameField g'\<rparr>)
            else g' = replyError g p ''wrong move'')"
proof (cases ok)
  case False
  then show ?thesis using assms by (simp add: onPlayerMove_cases)
next
  case True
  with assms(7) have "legalMove (gameField g) m = Some True" by simp
  from legal_fill [OF this] obtain field' where
    fill: "fillField (color m) (gameField g) (row (from_cell m)) (col (from_cell m))
             (row (to_cell m)) (col (to_cell m)) = Some field'" and
    claimed: "rectClaimed (gameField g) m field'" "field' \<noteq> gameField g"
    by blast
  have "scoreAndTurn (g\<lparr>gameField := field'\<rparr>) p m
        = Some (afterMove a b p m (g\<lparr>gameField := field'\<rparr>))"
    using assms(3-6) by (simp add: scoreAndTurn_two)
  then have "onPlayerMove g p m = Some (afterMove a b p m (g\<lparr>gameField := field'\<rparr>))"
    using assms(1,2,7) True fill by (simp add: onPlayerMove_cases)
  then show ?thesis
    using True claimed by (simp add: afterMove_fields)
qed

lemma afterMove_not_rejected:
  assumes "currentMove g = Some p" and "a \<noteq> b" and "p = a \<or> p = b"
  shows "\<not> rejected g p (afterMove a b p m (g\<lparr>gameField := field\<rparr>))"
proof
  assume "rejected g p (afterMove a b p m (g\<lparr>gameField := field\<rparr>))"
  then have "currentMove (afterMove a b p m (g\<lparr>gameField := field\<rparr>)) = currentMove g"
    by (auto simp: rejected_def replyError_def)
  then show False
    using assms by (auto simp: afterMove_fields otherPlayer_def split: if_splits)
qed

lemma isFieldEmpty_True_iff:
  "isFieldEmpty field = Some True \<longleftrightarrow>
   cellAt field 0 0 = Some (Some default__cell) \<and> cellAt field 0 29 = Some (Some default__cell)
   \<and> cellAt field 29 0 = Some (Some default__cell) \<and> cellAt field 29 29 = Some (Some default__cell)"
  by (auto simp: isFieldEmpty_def and_also_def cellIs_def split: option.splits if_splits)

section \<open>A started game\<close>

lemma newGame_started: "newGame [1, 2] (\<lambda>player. OPEN) = Some startedGame"
  by (simp add: newGame_def sendStartMessage_def startedGame_def sendMessage_def elemAt_def)

lemma startedGame_fields:
  "session startedGame = Some [1, 2]"
  "playersState startedGame = Some [1 \<mapsto> Num 0, 2 \<mapsto> Num 0]"
  "gameField startedGame = generateField []"
  "currentMove startedGame = Some 1"
  by (simp_all add: startedGame_def)

lemma aMove_fields:
  "row (from_cell (aMove rowFrom colFrom rowTo colTo c s d)) = rowFrom"
  "col (from_cell (aMove rowFrom colFrom rowTo colTo c s d)) = colFrom"
  "row (to_cell (aMove rowFrom colFrom rowTo colTo c s d)) = rowTo"
  "col (to_cell (aMove rowFrom colFrom rowTo colTo c s d)) = colTo"
  "color (aMove rowFrom colFrom rowTo colTo c s d) = c"
  "sum_field (aMove rowFrom colFrom rowTo colTo c s d) = s"
  "dices (aMove rowFrom colFrom rowTo colTo c s d) = d"
  "diceTotal (aMove rowFrom colFrom rowTo colTo c s d) = fst d + snd d"
  by (simp_all add: aMove_def diceTotal_def)

lemma rectEmpty_generateField:
  "rectEmpty (generateField []) rowFrom colFrom rowTo colTo \<longleftrightarrow>
   0 \<le> rowFrom \<and> rowFrom < 30 \<and> 0 \<le> rowTo \<and> rowTo < 30
   \<and> 0 \<le> colFrom \<and> colFrom < 30 \<and> 0 \<le> colTo \<and> colTo < 30"
proof
  assume empty: "rectEmpty (generateField []) rowFrom colFrom rowTo colTo"
  then have "cellAt (generateField []) rowFrom colFrom = Some (Some default__cell)"
    and "cellAt (generateField []) rowTo colTo = Some (Some default__cell)"
    by (simp_all add: rectEmpty_def)
  then show "0 \<le> rowFrom \<and> rowFrom < 30 \<and> 0 \<le> rowTo \<and> rowTo < 30
   \<and> 0 \<le> colFrom \<and> colFrom < 30 \<and> 0 \<le> colTo \<and> colTo < 30"
    by (simp add: cellAt_generateField split: if_splits)
next
  assume "0 \<le> rowFrom \<and> rowFrom < 30 \<and> 0 \<le> rowTo \<and> rowTo < 30
   \<and> 0 \<le> colFrom \<and> colFrom < 30 \<and> 0 \<le> colTo \<and> colTo < 30"
  then show "rectEmpty (generateField []) rowFrom colFrom rowTo colTo"
    by (auto simp: rectEmpty_def cellAt_generateField)
qed

lemma isFieldEmpty_generateField: "isFieldEmpty (generateField []) = Some True"
  by (simp add: isFieldEmpty_True_iff cellAt_generateField)

lemma rowSign_pair:
  "rowSign [r, c] = (if r = 29 then Some (- 1) else if r = 0 then Some 1 else None)"
  by (simp add: rowSign_def elemAt_def)

lemma colSign_pair: "colSign [r, c] = (if c = 0 then 1 else - 1)"
  by (simp add: colSign_def elemAt_def)

lemma reachable_top_left:
  "reachable [0, 0] rowFrom colFrom rowTo colTo n \<longleftrightarrow>
   (\<exists>i \<in> {1..n}. i dvd n \<and> rowTo = rowFrom + (i - 1) \<and> colTo = colFrom + (n div i - 1))"
  by (simp add: reachable_def rowSign_pair colSign_pair)

lemma reachable_corner_example: "reachable [0, 0] 0 0 2 1 6"
  unfolding reachable_top_left by (rule bexI [of _ 3]) simp_all

lemma legalMove_started:
  assumes "diceTotal m \<le> 30"
  shows "legalMove (generateField []) m =
   Some (isCorner (row (from_cell m)) (col (from_cell m))
         \<and> reachable [row (from_cell m), col (from_cell m)]
               (row (from_cell m)) (col (from_cell m))
               (row (to_cell m)) (col (to_cell m)) (diceTotal m)
         \<and> rectEmpty (generateField []) (row (from_cell m)) (col (from_cell m))
               (row (to_cell m)) (col (to_cell m)))"
  using assms
  by (simp add: legalMove_def isFieldEmpty_generateField checkFirstMove_total wf_generateField
      diceTotal_def)

lemma unchecked_move_outcome:
  assumes "currentMove g = Some p" and "sum_field m \<noteq> 0"
    and "session g = Some [a, b]" and "a \<noteq> b" and "p = a \<or> p = b"
    and "playersState g = Some scores"
  shows "onPlayerMove g p m = Some (afterMove a b p m g)"
  using assms by (simp add: onPlayerMove_cases scoreAndTurn_two)

lemma scoreOf_afterMove:
  "playersState g = Some scores \<Longrightarrow>
   scoreOf q (afterMove a b p m g) = (if q = p then Some (addDice (scores p) m) else scores q)"
  by (simp add: scoreOf_def afterMove_fields)

section \<open>Turns\<close>

lemma replyError_fields:
  "gameField (replyError g p text) = gameField g"
  "playersState (replyError g p text) = playersState g"
  "currentMove (replyError g p text) = currentMove g"
  "session (replyError g p text) = session g"
  "sent (replyError g p text) = sent g @ [(p, incorrectRequest text)]"
  by (simp_all add: replyError_def)

lemma out_of_turn:
  "currentMove g \<noteq> Some p \<Longrightarrow> onPlayerMove g p m = Some (replyError g p ''Not your turn'')"
  by (simp add: onPlayerMove_cases)

lemma otherPlayer_differs: "a \<noteq> b \<Longrightarrow> p = a \<or> p = b \<Longrightarrow> otherPlayer a b p \<noteq> p"
  by (auto simp: otherPlayer_def)

section \<open>Errors\<close>

lemma legalMove_False:
  assumes "anchorCorner field m = Some anchor"
    and "anchorMismatch field anchor m \<or> unreachableTarget field anchor m
         \<or> nonEmptyRectangle field anchor m"
  shows "legalMove field m = Some False"
proof -
  consider (a) "anchorMismatch field anchor m" | (b) "unreachableTarget field anchor m"
    | (c) "nonEmptyRectangle field anchor m"
    using assms(2) by blast
  then show ?thesis
  proof cases
    case a
    then show ?thesis
      using assms(1) by (simp add: legalMove_decomp anchorMismatch_def)
  next
    case b
    then show ?thesis
      using assms(1)
      by (simp add: legalMove_decomp unreachableTarget_def possibleMoves_iff diceTotal_def)
  next
    case c
    then obtain v where v: "areCellsEmpty field (row (from_cell m)) (col (from_cell m))
             (row (to_cell m)) (col (to_cell m)) = Some v"
      by (auto simp: nonEmptyRectangle_def)
    with c have "\<not> v"
      using areCellsEmpty_iff [of field "row (from_cell m)" "col (from_cell m)"
          "row (to_cell m)" "col (to_cell m)"]
      by (auto simp: nonEmptyRectangle_def)
    with c v show ?thesis
      using assms(1)
      by (simp add: legalMove_decomp nonEmptyRectangle_def possibleMoves_iff diceTotal_def)
  qed
qed

lemma wrong_move:
  assumes "currentMove g = Some p" and "sum_field m = 0"
    and "legalMove (gameField g) m = Some False"
  shows "onPlayerMove g p m = Some (replyError g p ''wrong move'')"
  using assms by (simp add: onPlayerMove_cases)

lemma anchorCorner_started:
  "anchorCorner (generateField []) m = Some [row (from_cell m), col (from_cell m)]"
  by (simp add: anchorCorner_def isFieldEmpty_generateField)

lemma startAllowed_started:
  "startAllowed (generateField []) anchor m =
   Some (\<not> (row (from_cell m) > 0 \<and> row (from_cell m) < 29)
         \<and> \<not> (col (from_cell m) > 0 \<and> col (from_cell m) < 29))"
  by (simp add: startAllowed_def isFieldEmpty_generateField)

text \<open>
  The payloads on which the listener throws: nothing is sent, and the state of the game
  stays as it was before the message.
\<close>

lemma listener_throws:
  "onMessage g p (Parsed nullValue) = None"
  "onMessage g p (Parsed unprintableType) = None"
  "currentMove g = Some p \<Longrightarrow> onMessage g p (Parsed (playerMove None)) = None"
  by (simp_all add: onMessage_def parseMessage_def processMessage_def
      onPlayerMoveUndefined_def)

section \<open>Scores along a game\<close>

lemma fold_sendMessage_fields:
  "playersState (fold (\<lambda>player. sendMessage player (f player)) players g) = playersState g"
  "gameField (fold (\<lambda>player. sendMessage player (f player)) players g) = gameField g"
  by (induction players arbitrary: g) (simp_all add: sendMessage_def)

lemma scoreAndTurn_scores:
  assumes "scoreAndTurn g p m = Some g'"
  shows "\<exists>scores. playersState g = Some scores
           \<and> playersState g' = Some (scores(p \<mapsto> addDice (scores p) m))
           \<and> gameField g' = gameField g"
proof -
  from assms obtain scores players where
    scores: "playersState g = Some scores" and players: "session g = Some players"
    by (auto simp: scoreAndTurn_def Let_def split: Option.bind_splits)
  obtain winFlag player2 where loop:
    "fold (\<lambda>player (winFlag, player2).
             (winFlag \<or> checkWin ((scores(p \<mapsto> addDice (scores p) m)) player),
              if player \<noteq> p then player else player2))
       players (False, p) = (winFlag, player2)"
    by (cases "fold (\<lambda>player (winFlag, player2).
             (winFlag \<or> checkWin ((scores(p \<mapsto> addDice (scores p) m)) player),
              if player \<noteq> p then player else player2))
       players (False, p)") auto
  show ?thesis
    using assms scores players loop
    by (cases winFlag)
      (auto simp: scoreAndTurn_def Let_def addDice_def sendMessage_def fold_sendMessage_fields)
qed

lemma onPlayerMove_score:
  assumes "onPlayerMove g p m = Some g'" and "scoreOf q g = Some (Num s)"
  shows "scoreOf q g' = Some (Num (s + (if p = q \<and> accepted g p m then diceTotal m else 0)))"
proof (cases "accepted g p m")
  case False
  then have "g' = replyError g p ''Not your turn'' \<or> g' = replyError g p ''wrong move''"
    using assms(1)
    by (auto simp: onPlayerMove_cases accepted_def split: if_splits option.splits)
  then show ?thesis
    using assms(2) False by (auto simp: scoreOf_def replyError_def)
next
  case True
  then obtain g1 where run: "scoreAndTurn g1 p m = Some g'"
    and g1: "playersState g1 = playersState g"
    using assms(1)
    by (auto simp: onPlayerMove_cases accepted_def split: if_splits option.splits)
  from scoreAndTurn_scores [OF run] obtain scores where
    "playersState g = Some scores" "playersState g' = Some (scores(p \<mapsto> addDice (scores p) m))"
    using g1 by auto
  then show ?thesis
    using assms(2) True by (auto simp: scoreOf_def addDice_Num)
qed

lemma fold_sendMessage_sent:
  "sent (fold (\<lambda>player. sendMessage player (f player)) players g)
   = sent g @ map (\<lambda>player. (player, f player)) players"
  by (induction players arbitrary: g) (simp_all add: sendMessage_def)

lemma scoreAndTurn_sent:
  assumes "scoreAndTurn g p m = Some g'"
  shows "\<exists>msgs. sent g' = sent g @ msgs \<and> (\<forall>text. (p, incorrectRequest text) \<notin> set msgs)"
proof -
  from assms obtain scores players where
    scores: "playersState g = Some scores" and players: "session g = Some players"
    by (auto simp: scoreAndTurn_def Let_def split: Option.bind_splits)
  obtain winFlag player2 where loop:
    "fold (\<lambda>player (winFlag, player2).
             (winFlag \<or> checkWin ((scores(p \<mapsto> addDice (scores p) m)) player),
              if player \<noteq> p then player else player2))
       players (False, p) = (winFlag, player2)"
    by (cases "fold (\<lambda>player (winFlag, player2).
             (winFlag \<or> checkWin ((scores(p \<mapsto> addDice (scores p) m)) player),
              if player \<noteq> p then player else player2))
       players (False, p)") auto
  show ?thesis
  proof (cases winFlag)
    case True
    then have "sent g' = sent g @ map (\<lambda>player. (player,
                 gameResult (checkWin ((scores(p \<mapsto> addDice (scores p) m)) player)))) players"
      using assms scores players loop
      by (auto simp: scoreAndTurn_def Let_def addDice_def fold_sendMessage_sent)
    then show ?thesis by auto
  next
    case False
    then have "sent g' = sent g @
                 [(player2, changePlayer True (gameField g)
                              (if color m = ''r'' then ''b'' else ''r'')),
                  (p, changePlayer False (gameField g) (color m))]"
      using assms scores players loop
      by (auto simp: scoreAndTurn_def Let_def addDice_def sendMessage_def)
    then show ?thesis by auto
  qed
qed

lemma accepted_iff_not_rejected:
  assumes "onPlayerMove g p m = Some g'"
  shows "accepted g p m \<longleftrightarrow> \<not> rejected g p g'"
proof (cases "accepted g p m")
  case False
  then have "g' = replyError g p ''Not your turn'' \<or> g' = replyError g p ''wrong move''"
    using assms
    by (auto simp: onPlayerMove_cases accepted_def split: if_splits option.splits)
  then show ?thesis using False by (simp add: rejected_def)
next
  case True
  then obtain g1 where run: "scoreAndTurn g1 p m = Some g'" and g1: "sent g1 = sent g"
    using assms
    by (auto simp: onPlayerMove_cases accepted_def split: if_splits option.splits)
  from scoreAndTurn_sent [OF run] obtain msgs where
    msgs: "sent g' = sent g @ msgs" "\<forall>text. (p, incorrectRequest text) \<notin> set msgs"
    using g1 by auto
  have "\<not> rejected g p g'"
  proof
    assume "rejected g p g'"
    then obtain reply where "sent g' = sent g @ [(p, incorrectRequest reply)]"
      by (auto simp: rejected_def replyError_def)
    with msgs(1) have "msgs = [(p, incorrectRequest reply)]" by simp
    with msgs(2) show False by simp
  qed
  with True show ?thesis by simp
qed

lemma playMoves_score:
  assumes "playMoves g moves = Some g'" and "scoreOf q g = Some (Num s)"
  shows "scoreOf q g' = Some (Num (s + sum_list (acceptedTotals q g moves)))"
  using assms
proof (induction moves arbitrary: g s)
  case Nil
  then show ?case by simp
next
  case (Cons move moves)
  obtain p m where move: "move = (p, m)" by (cases move)
  from Cons.prems(1) move obtain g1 where
    step: "onPlayerMove g p m = Some g1" and rest: "playMoves g1 moves = Some g'"
    by (auto split: Option.bind_splits)
  from onPlayerMove_score [OF step Cons.prems(2)]
  have "scoreOf q g1 = Some (Num (s + (if p = q \<and> accepted g p m then diceTotal m else 0)))" .
  from Cons.IH [OF rest this] show ?case
    using move step by (auto simp: add.assoc)
qed

lemma startLoop_scores:
  assumes "startLoop players dataMyTurn dataColor g = Some g'"
    and "playersState g = Some scores"
  shows "playersState g' = Some (\<lambda>q. if q \<in> set players then Some (Num 0) else scores q)"
  using assms
proof (induction players arbitrary: g scores dataMyTurn dataColor)
  case Nil
  then show ?case by simp
next
  case (Cons player players)
  let ?g1 = "(sendMessage player (gameStarted dataMyTurn (gameField g) dataColor 0) g)
               \<lparr>playersState := Some (scores(player \<mapsto> Num 0))\<rparr>"
  have "startLoop players False ''b'' ?g1 = Some g'"
    using Cons.prems by simp
  from Cons.IH [OF this, of "scores(player \<mapsto> Num 0)"]
  show ?case by (auto simp: fun_eq_iff)
qed

lemma newGame_scores:
  assumes "newGame players states = Some g" and "q \<in> set players"
  shows "scoreOf q g = Some (Num 0)"
proof -
  from assms(1) obtain g0 where
    "startLoop players True ''r'' g0 = Some g" "playersState g0 = Some Map.empty"
    by (auto simp: newGame_def sendStartMessage_def Let_def)
  from startLoop_scores [OF this] show ?thesis
    using assms(2) by (simp add: scoreOf_def)
qed

lemma claimedCells_generateField: "claimedCells (generateField []) = 0"
  by (simp add: claimedCells_def generateField_Nil)

section \<open>Teardown\<close>

lemma set_notified:
  "set (notified states players) =
   {p \<in> set players. states p \<noteq> CLOSED \<and> states p \<noteq> CLOSING}"
  by (induction players arbitrary: states) auto

lemma distinct_notified: "distinct (notified states players)"
proof (induction players arbitrary: states)
  case Nil
  show ?case by simp
next
  case (Cons player players)
  have "player \<notin> set (notified (states(player := CLOSING)) players)"
    by (simp add: set_notified)
  then show ?case using Cons by simp
qed

lemma fold_abortPlayer:
  "fold abortPlayer players g =
   g\<lparr>readyState := closedStates (readyState g) players,
     sent := sent g @ map (\<lambda>p. (p, gameAborted)) (notified (readyState g) players)\<rparr>"
proof (induction players arbitrary: g)
  case Nil
  show ?case by simp
next
  case (Cons player players)
  show ?case
    by (subst fold_simps, subst Cons.IH)
      (simp add: abortPlayer_def closeSocket_def sendMessage_def)
qed

lemma destroy_first:
  assumes "session g = Some players" and "\<not> destroyReplaced g"
  shows "destroy g =
         Some (g\<lparr>session := None, playersState := None, destroyReplaced := True,
                 readyState := closedStates (readyState g) players,
                 sent := sent g @ map (\<lambda>p. (p, gameAborted)) (notified (readyState g) players)\<rparr>)"
  using assms by (simp add: destroy_def fold_abortPlayer)

lemma destroy_again: "destroyReplaced g \<Longrightarrow> destroy g = Some g"
  by (simp add: destroy_def)

lemma destroyTimes_again: "destroyReplaced g \<Longrightarrow> destroyTimes n g = Some g"
  by (induction n) (simp_all add: destroy_again)

lemma destroy_once_and_for_all:
  assumes "session g = Some players"
  shows "\<exists>g1. destroy g = Some g1 \<and> destroyReplaced g1
           \<and> sent g1 = sent g @ map (\<lambda>p. (p, gameAborted))
                                  (if destroyReplaced g then [] else notified (readyState g) players)"
proof (cases "destroyReplaced g")
  case True
  then show ?thesis by (simp add: destroy_again)
next
  case False
  then show ?thesis using destroy_first [OF assms False] by simp
qed

section \<open>Moves that leave the board\<close>

lemma playMoves_append:
  "playMoves g (moves @ later) = Option.bind (playMoves g moves) (\<lambda>g'. playMoves g' later)"
proof (induction moves arbitrary: g)
  case Nil
  show ?case by simp
next
  case (Cons move moves)
  obtain p m where "move = (p, m)" by (cases move)
  then show ?case
    by (cases "onPlayerMove g p m") (simp_all add: Cons.IH)
qed

lemma check_throws:
  assumes "currentMove g = Some p" and "sum_field m = 0" and "legalMove (gameField g) m = None"
  shows "onPlayerMove g p m = None"
  using assms by (simp add: onPlayerMove_cases)

lemma setCell_wf:
  assumes "setCell field i j type = Some field'" and "wf_field field"
  shows "wf_field field'"
proof -
  from assms(1) have i: "0 \<le> i" "nat i < length field"
    and field': "field' = field[nat i := (field ! nat i)[nat j := type]]"
    by (auto simp: setCell_def elemAt_def split: if_splits)
  show ?thesis
    using assms(2) i unfolding field' wf_field_def list_all_length
    by (auto simp: nth_list_update)
qed

lemma fillCols_wf:
  "fillCols type field i js = Some field' \<Longrightarrow> wf_field field \<Longrightarrow> wf_field field'"
proof (induction js arbitrary: field)
  case Nil
  then show ?case by simp
next
  case (Cons j js)
  then show ?case
    by (auto split: Option.bind_splits dest: setCell_wf)
qed

lemma fillRows_wf:
  "fillRows type field is js = Some field' \<Longrightarrow> wf_field field \<Longrightarrow> wf_field field'"
proof (induction "is" arbitrary: field)
  case Nil
  then show ?case by simp
next
  case (Cons i "is")
  then show ?case
    by (auto split: Option.bind_splits dest: fillCols_wf)
qed

lemma fillField_wf:
  "fillField c field rowFrom colFrom rowTo colTo = Some field' \<Longrightarrow> wf_field field
   \<Longrightarrow> wf_field field'"
  unfolding fillField_def Let_def by (rule fillRows_wf)

lemma rectEmpty_inside:
  assumes "wf_field field" and "rectEmpty field rowFrom colFrom rowTo colTo"
    and "inRect rowFrom colFrom rowTo colTo i j"
  shows "0 \<le> i \<and> i < 30 \<and> 0 \<le> j \<and> j < 30"
proof -
  have "cellAt field i j = Some (Some default__cell)"
    using assms(2,3) by (simp add: rectEmpty_def inRect_def)
  then show ?thesis
    using assms(1) by (auto simp: cellAt_wf split: if_splits)
qed

lemma makeMove_inside:
  assumes "wf_field field" and "makeMove field anchor rowFrom colFrom rowTo colTo d = Some True"
  shows "reachable anchor rowFrom colFrom rowTo colTo (fst d + snd d)
         \<and> (\<forall>i j. inRect rowFrom colFrom rowTo colTo i j
                \<longrightarrow> 0 \<le> i \<and> i < 30 \<and> 0 \<le> j \<and> j < 30)
         \<and> (\<exists>field'. fillField c field rowFrom colFrom rowTo colTo = Some field'
                \<and> wf_field field')"
proof -
  from assms(2) have reach: "reachable anchor rowFrom colFrom rowTo colTo (fst d + snd d)"
    and empty: "rectEmpty field rowFrom colFrom rowTo colTo"
    by (auto simp: possibleMoves_iff areCellsEmpty_iff split: if_splits)
  from fillField_Some [OF empty, of c] obtain field' where
    fill: "fillField c field rowFrom colFrom rowTo colTo = Some field'" by blast
  then have "wf_field field'"
    using assms(1) by (rule fillField_wf)
  with reach fill rectEmpty_inside [OF assms(1) empty] show ?thesis by blast
qed

section \<open>The properties of the specification\<close>




text \<open>
  C2. For every dice sum \<open>n\<close> (in particular for \<open>n\<close> from 2 to 12) the displacement set that
  \<open>_factorization\<close> produces is exactly the set of pairs \<open>(i - 1, n / i - 1)\<close> for the integer
  divisors \<open>i\<close> of \<open>n\<close> with \<open>1 \<le> i \<le> n\<close>; for \<open>n = 6\<close> it is \<open>{(0,5), (1,2), (2,1), (5,0)}\<close>.
\<close>

theorem factorization_displacements:
  "set (factorization n) = {(i - 1, n div i - 1) | i. 1 \<le> i \<and> i \<le> n \<and> i dvd n}
   \<and> set (factorization 6) = {(0, 5), (1, 2), (2, 1), (5, 0)}"
proof
  have "set (factorization n) = (\<lambda>k. (k - 1, n div k - 1)) ` {k. 1 \<le> k \<and> k \<le> n \<and> n mod k = 0}"
    by (simp add: factorization_eq)
  also have "\<dots> = {(i - 1, n div i - 1) | i. 1 \<le> i \<and> i \<le> n \<and> i dvd n}"
    unfolding mod_eq_0_iff_dvd by blast
  finally show "set (factorization n) = {(i - 1, n div i - 1) | i. 1 \<le> i \<and> i \<le> n \<and> i dvd n}" .
  have "[1..6] = [1, 2, 3, 4, 5, 6 :: int]"
    by (simp add: upto_rec1)
  then have "factorization 6 = [(0, 5), (1, 2), (2, 1), (5, 0)]"
    by (simp add: factorization_eq)
  then show "set (factorization 6) = {(0, 5), (1, 2), (2, 1), (5, 0)}"
    by simp
qed

text \<open>
  C3, amended. On a board of 30 x 30 cells whose four corners are free, a first move with
  \<open>sum = 0\<close> by the player whose turn it is (dice total at most 30, which every roll of two
  dice is) is accepted if and only if its \<open>from\<close> cell is one of the four corners, its
  target is reachable from that corner under the dice total, and the rectangle is fully
  unclaimed; then the rectangle is claimed, otherwise the only effect is the reply
  \<open>'wrong move'\<close>. From (0,0) to (2,1) with dice total 6 is accepted, from (1,0) to (2,1)
  is rejected. As the claim states it (corner and free rectangle only, any \<open>sum\<close>) it
  fails: from (0,0) to (3,3) with dice total 6 starts on a corner and spans free cells, and
  is rejected; from (1,0) to (2,1) with \<open>sum = 1\<close> does not start on a corner, and is
  accepted.
\<close>

theorem first_move_accepted_iff:
  assumes "wf_field (gameField g)" and "isFieldEmpty (gameField g) = Some True"
    and "currentMove g = Some p" and "sum_field m = 0"
    and "session g = Some [a, b]" and "a \<noteq> b" and "p = a \<or> p = b"
    and "playersState g = Some scores" and "diceTotal m \<le> 30"
  shows "\<exists>g'. onPlayerMove g p m = Some g' \<and>
           (if isCorner (row (from_cell m)) (col (from_cell m))
               \<and> reachable [row (from_cell m), col (from_cell m)]
                     (row (from_cell m)) (col (from_cell m))
                     (row (to_cell m)) (col (to_cell m)) (diceTotal m)
               \<and> rectEmpty (gameField g) (row (from_cell m)) (col (from_cell m))
                     (row (to_cell m)) (col (to_cell m))
            then \<not> rejected g p g' \<and> rectClaimed (gameField g) m (gameField g')
                 \<and> g' = afterMove a b p m (g\<lparr>gameField := gameField g'\<rparr>)
            else g' = replyError g p ''wrong move'')"
proof -
  let ?ok = "isCorner (row (from_cell m)) (col (from_cell m))
               \<and> reachable [row (from_cell m), col (from_cell m)]
                     (row (from_cell m)) (col (from_cell m))
                     (row (to_cell m)) (col (to_cell m)) (diceTotal m)
               \<and> rectEmpty (gameField g) (row (from_cell m)) (col (from_cell m))
                     (row (to_cell m)) (col (to_cell m))"
  have "legalMove (gameField g) m = Some ?ok"
    using assms(1,2,9) by (simp add: legalMove_def checkFirstMove_total diceTotal_def)
  from checked_move_outcome [OF assms(3-8) this] obtain g' where
    run: "onPlayerMove g p m = Some g'" and
    out: "if ?ok
          then rectClaimed (gameField g) m (gameField g') \<and> gameField g' \<noteq> gameField g
               \<and> g' = afterMove a b p m (g\<lparr>gameField := gameField g'\<rparr>)
          else g' = replyError g p ''wrong move''"
    by blast
  show ?thesis
  proof (cases ?ok)
    case False
    with run out show ?thesis by auto
  next
    case True
    with out have g': "g' = afterMove a b p m (g\<lparr>gameField := gameField g'\<rparr>)"
      and claimed: "rectClaimed (gameField g) m (gameField g')" by auto
    have "\<not> rejected g p g'"
      using afterMove_not_rejected [OF assms(3,6,7), of m "gameField g'"] g' by simp
    with run True g' claimed show ?thesis by auto
  qed
qed

theorem first_move_accepted_iff_witness:
  "(\<exists>g'. onPlayerMove startedGame 1 (aMove 0 0 2 1 ''r'' 0 (1, 5)) = Some g'
          \<and> \<not> rejected startedGame 1 g'
          \<and> rectClaimed (gameField startedGame) (aMove 0 0 2 1 ''r'' 0 (1, 5)) (gameField g'))
   \<and> onPlayerMove startedGame 1 (aMove 1 0 2 1 ''r'' 0 (1, 5))
       = Some (replyError startedGame 1 ''wrong move'')"
proof
  show "\<exists>g'. onPlayerMove startedGame 1 (aMove 0 0 2 1 ''r'' 0 (1, 5)) = Some g'
          \<and> \<not> rejected startedGame 1 g'
          \<and> rectClaimed (gameField startedGame) (aMove 0 0 2 1 ''r'' 0 (1, 5)) (gameField g')"
    using first_move_accepted_iff [of startedGame 1 "aMove 0 0 2 1 ''r'' 0 (1, 5)" 1 2
        "[1 \<mapsto> Num 0, 2 \<mapsto> Num 0]"]
      reachable_corner_example
    by (simp add: startedGame_fields aMove_fields wf_generateField isFieldEmpty_generateField
        isCorner_def rectEmpty_generateField) blast
  show "onPlayerMove startedGame 1 (aMove 1 0 2 1 ''r'' 0 (1, 5))
       = Some (replyError startedGame 1 ''wrong move'')"
    using first_move_accepted_iff [of startedGame 1 "aMove 1 0 2 1 ''r'' 0 (1, 5)" 1 2
        "[1 \<mapsto> Num 0, 2 \<mapsto> Num 0]"]
    by (simp add: startedGame_fields aMove_fields wf_generateField isFieldEmpty_generateField
        isCorner_def)
qed

theorem first_move_unreachable_counterexample:
  "isCorner 0 0 \<and> rectEmpty (gameField startedGame) 0 0 3 3
   \<and> onPlayerMove startedGame 1 (aMove 0 0 3 3 ''r'' 0 (3, 3))
       = Some (replyError startedGame 1 ''wrong move'')
   \<and> \<not> isCorner 1 0
   \<and> onPlayerMove startedGame 1 (aMove 1 0 2 1 ''r'' 1 (1, 5))
       = Some (afterMove 1 2 1 (aMove 1 0 2 1 ''r'' 1 (1, 5)) startedGame)"
proof -
  have "\<not> reachable [0, 0] 0 0 3 3 6"
    by (auto simp: reachable_top_left)
  then have "legalMove (gameField startedGame) (aMove 0 0 3 3 ''r'' 0 (3, 3)) = Some False"
    by (simp add: startedGame_fields legalMove_started aMove_fields)
  then have "onPlayerMove startedGame 1 (aMove 0 0 3 3 ''r'' 0 (3, 3))
       = Some (replyError startedGame 1 ''wrong move'')"
    by (simp add: wrong_move startedGame_fields aMove_fields)
  moreover have "onPlayerMove startedGame 1 (aMove 1 0 2 1 ''r'' 1 (1, 5))
       = Some (afterMove 1 2 1 (aMove 1 0 2 1 ''r'' 1 (1, 5)) startedGame)"
    by (rule unchecked_move_outcome [where scores = "[1 \<mapsto> Num 0, 2 \<mapsto> Num 0]"])
      (simp_all add: startedGame_fields aMove_fields)
  ultimately show ?thesis
    by (simp add: isCorner_def startedGame_fields rectEmpty_generateField)
qed

text \<open>
  C4. In a session of two sockets, a \<open>playerMove\<close> from a player whose turn it is not is
  answered by the error \<open>'Not your turn'\<close> and changes nothing else; after every
  \<open>playerMove\<close> that is not rejected the turn is with the other player, so that whatever
  the same player sends next as a move is rejected as out of turn: no player has two
  accepted moves in a row.
\<close>

theorem turn_alternation:
  assumes "session g = Some [a, b]" and "a \<noteq> b" and "p = a \<or> p = b"
    and "onPlayerMove g p m = Some g'"
  shows "(currentMove g \<noteq> Some p \<longrightarrow> g' = replyError g p ''Not your turn'')
         \<and> (\<not> rejected g p g' \<longrightarrow>
               currentMove g' = Some (otherPlayer a b p) \<and> otherPlayer a b p \<noteq> p
               \<and> (\<forall>m'. onPlayerMove g' p m' = Some (replyError g' p ''Not your turn'')))"
proof (intro conjI impI)
  assume "currentMove g \<noteq> Some p"
  then show "g' = replyError g p ''Not your turn''"
    using assms(4) by (simp add: out_of_turn)
next
  assume accepted: "\<not> rejected g p g'"
  from onPlayerMove_accepted [OF assms accepted] obtain field where
    g': "g' = afterMove a b p m (g\<lparr>gameField := field\<rparr>)" by blast
  then show turn: "currentMove g' = Some (otherPlayer a b p)"
    by (simp add: afterMove_fields)
  show differs: "otherPlayer a b p \<noteq> p"
    using assms(2,3) by (rule otherPlayer_differs)
  show "\<forall>m'. onPlayerMove g' p m' = Some (replyError g' p ''Not your turn'')"
    using turn differs by (simp add: out_of_turn)
qed

theorem turn_alternation_witness:
  "\<exists>g'. onPlayerMove startedGame 1 (aMove 0 0 2 1 ''r'' 0 (1, 5)) = Some g'
        \<and> currentMove g' = Some 2
        \<and> onPlayerMove g' 1 (aMove 2 0 3 2 ''r'' 0 (2, 2)) = Some (replyError g' 1 ''Not your turn'')
        \<and> onPlayerMove startedGame 2 (aMove 29 29 27 28 ''b'' 0 (3, 3))
            = Some (replyError startedGame 2 ''Not your turn'')"
proof -
  have "legalMove (gameField startedGame) (aMove 0 0 2 1 ''r'' 0 (1, 5)) = Some True"
    using reachable_corner_example
    by (simp add: startedGame_fields legalMove_started aMove_fields isCorner_def
        rectEmpty_generateField)
  from checked_move_outcome [of startedGame 1 "aMove 0 0 2 1 ''r'' 0 (1, 5)" 1 2
      "[1 \<mapsto> Num 0, 2 \<mapsto> Num 0]" True, OF _ _ _ _ _ _ this]
  obtain g' where run: "onPlayerMove startedGame 1 (aMove 0 0 2 1 ''r'' 0 (1, 5)) = Some g'"
    and g': "g' = afterMove 1 2 1 (aMove 0 0 2 1 ''r'' 0 (1, 5))
                    (startedGame\<lparr>gameField := gameField g'\<rparr>)"
    by (auto simp: startedGame_fields aMove_fields)
  have accepted: "\<not> rejected startedGame 1 g'"
    using afterMove_not_rejected [of startedGame 1 1 2 "aMove 0 0 2 1 ''r'' 0 (1, 5)" "gameField g'"] g'
    by (simp add: startedGame_fields)
  have two: "session startedGame = Some [1, 2]" "(1::nat) \<noteq> 2" "(1::nat) = 1 \<or> (1::nat) = 2"
    by (simp_all add: startedGame_fields)
  from turn_alternation [OF two run] accepted
  have "currentMove g' = Some 2"
    and "onPlayerMove g' 1 (aMove 2 0 3 2 ''r'' 0 (2, 2)) = Some (replyError g' 1 ''Not your turn'')"
    by (simp_all add: otherPlayer_def)
  moreover have "onPlayerMove startedGame 2 (aMove 29 29 27 28 ''b'' 0 (3, 3))
            = Some (replyError startedGame 2 ''Not your turn'')"
    by (simp add: out_of_turn startedGame_fields)
  ultimately show ?thesis using run by blast
qed

text \<open>
  C5. From the start of a game on, and for every sequence of \<open>playerMove\<close> messages, the
  score of a player is the sum of the dice totals \<open>dices[0] + dices[1]\<close> of that player's
  accepted moves. It is not a count of claimed cells: after one accepted move with dice
  2 and 3 and a nonzero \<open>sum\<close> the score is 5 and no cell of the board is claimed.
\<close>

theorem score_is_sum_of_dice_totals:
  assumes "newGame players states = Some g" and "q \<in> set players"
    and "playMoves g moves = Some g'"
  shows "scoreOf q g' = Some (Num (sum_list (acceptedTotals q g moves)))
         \<and> playMoves startedGame [(1, aMove 4 4 9 9 ''r'' 3 (2, 3))]
             = Some (afterMove 1 2 1 (aMove 4 4 9 9 ''r'' 3 (2, 3)) startedGame)
         \<and> scoreOf 1 (afterMove 1 2 1 (aMove 4 4 9 9 ''r'' 3 (2, 3)) startedGame) = Some (Num 5)
         \<and> claimedCells (gameField (afterMove 1 2 1 (aMove 4 4 9 9 ''r'' 3 (2, 3)) startedGame)) = 0"
proof (intro conjI)
  show "scoreOf q g' = Some (Num (sum_list (acceptedTotals q g moves)))"
    using playMoves_score [OF assms(3) newGame_scores [OF assms(1,2)]] by simp
  show "playMoves startedGame [(1, aMove 4 4 9 9 ''r'' 3 (2, 3))]
             = Some (afterMove 1 2 1 (aMove 4 4 9 9 ''r'' 3 (2, 3)) startedGame)"
    using unchecked_move_outcome [of startedGame 1 "aMove 4 4 9 9 ''r'' 3 (2, 3)" 1 2
        "[1 \<mapsto> Num 0, 2 \<mapsto> Num 0]"]
    by (simp add: startedGame_fields aMove_fields)
  show "scoreOf 1 (afterMove 1 2 1 (aMove 4 4 9 9 ''r'' 3 (2, 3)) startedGame) = Some (Num 5)"
    by (simp add: scoreOf_afterMove [where scores = "[1 \<mapsto> Num 0, 2 \<mapsto> Num 0]"]
        startedGame_fields addDice_Num aMove_fields)
  show "claimedCells (gameField (afterMove 1 2 1 (aMove 4 4 9 9 ''r'' 3 (2, 3)) startedGame)) = 0"
    by (simp add: afterMove_fields startedGame_fields claimedCells_generateField)
qed

theorem score_is_sum_of_dice_totals_witness:
  "\<exists>g'. playMoves startedGame
           [(1, aMove 0 0 2 1 ''r'' 0 (1, 5)), (1, aMove 3 0 4 1 ''r'' 0 (2, 2)),
            (2, aMove 7 7 8 8 ''b'' 9 (6, 6)), (1, aMove 0 0 9 9 ''r'' 4 (4, 3))] = Some g'
        \<and> scoreOf 1 g' = Some (Num 13) \<and> scoreOf 2 g' = Some (Num 12)"
proof -
  let ?m1 = "aMove 0 0 2 1 ''r'' 0 (1, 5)" and ?m2 = "aMove 3 0 4 1 ''r'' 0 (2, 2)"
  let ?m3 = "aMove 7 7 8 8 ''b'' 9 (6, 6)" and ?m4 = "aMove 0 0 9 9 ''r'' 4 (4, 3)"
  have legal: "legalMove (gameField startedGame) ?m1 = Some True"
    using reachable_corner_example
    by (simp add: startedGame_fields legalMove_started aMove_fields isCorner_def
        rectEmpty_generateField)
  from checked_move_outcome [of startedGame 1 ?m1 1 2 "[1 \<mapsto> Num 0, 2 \<mapsto> Num 0]" True,
      OF _ _ _ _ _ _ this]
  obtain g1 where r1: "onPlayerMove startedGame 1 ?m1 = Some g1"
    and g1: "g1 = afterMove 1 2 1 ?m1 (startedGame\<lparr>gameField := gameField g1\<rparr>)"
    by (auto simp: startedGame_fields aMove_fields)
  have f1: "currentMove g1 = Some 2" "session g1 = Some [1, 2]"
    "playersState g1 = Some [1 \<mapsto> Num 6, 2 \<mapsto> Num 0]"
    by (subst g1, simp add: afterMove_fields otherPlayer_def startedGame_def addDice_Num
        aMove_fields fun_upd_twist)+
  let ?g2 = "replyError g1 1 ''Not your turn''"
  have r2: "onPlayerMove g1 1 ?m2 = Some ?g2"
    by (simp add: out_of_turn f1 del: One_nat_def)
  have f2: "currentMove ?g2 = Some 2" "session ?g2 = Some [1, 2]"
    "playersState ?g2 = Some [1 \<mapsto> Num 6, 2 \<mapsto> Num 0]"
    by (simp_all only: replyError_fields f1)
  let ?g3 = "afterMove 1 2 2 ?m3 ?g2"
  have r3: "onPlayerMove ?g2 2 ?m3 = Some ?g3"
    by (rule unchecked_move_outcome [where scores = "[1 \<mapsto> Num 6, 2 \<mapsto> Num 0]"])
      (simp_all add: f2 aMove_fields del: One_nat_def)
  have f3: "currentMove ?g3 = Some 1" "session ?g3 = Some [1, 2]"
    "playersState ?g3 = Some [1 \<mapsto> Num 6, 2 \<mapsto> Num 12]"
    by (simp_all add: afterMove_fields otherPlayer_def f2 addDice_Num aMove_fields del: One_nat_def)
  let ?g4 = "afterMove 1 2 1 ?m4 ?g3"
  have r4: "onPlayerMove ?g3 1 ?m4 = Some ?g4"
    by (rule unchecked_move_outcome [where scores = "[1 \<mapsto> Num 6, 2 \<mapsto> Num 12]"])
      (simp_all add: f3 aMove_fields del: One_nat_def)
  have run: "playMoves startedGame [(1, ?m1), (1, ?m2), (2, ?m3), (1, ?m4)] = Some ?g4"
    by (simp add: r1 r2 r3 r4 del: One_nat_def)
  have legal': "legalMove (generateField []) ?m1 = Some True"
    using legal by (simp add: startedGame_fields)
  have acc: "accepted startedGame 1 ?m1" "\<not> accepted g1 1 ?m2" "accepted ?g2 2 ?m3"
    "accepted ?g3 1 ?m4"
    by (simp_all add: accepted_def legal' startedGame_fields aMove_fields f1 f2 f3 del: One_nat_def)
  have totals: "acceptedTotals 1 startedGame [(1, ?m1), (1, ?m2), (2, ?m3), (1, ?m4)] = [6, 7]"
    "acceptedTotals 2 startedGame [(1, ?m1), (1, ?m2), (2, ?m3), (1, ?m4)] = [12]"
    by (simp_all add: r1 r2 r3 r4 acc aMove_fields del: One_nat_def)
  have q1: "(1::nat) \<in> set [1, 2]" and q2: "(2::nat) \<in> set [1, 2]"
    by simp_all
  have "scoreOf 1 ?g4 = Some (Num 13)"
    using score_is_sum_of_dice_totals [OF newGame_started q1 run, THEN conjunct1]
    unfolding totals by simp
  moreover have "scoreOf 2 ?g4 = Some (Num 12)"
    using score_is_sum_of_dice_totals [OF newGame_started q2 run, THEN conjunct1]
    unfolding totals by simp
  ultimately show ?thesis using run by blast
qed

text \<open>
  C6. After a move that is not rejected, in a session of two sockets: when the score of a
  player has reached 450, both players are sent a \<open>gameResult\<close> in the same round, each with
  the flag \<open>win\<close> computed from the receiver's own score (at least 450); when neither score
  has reached 450, no \<open>gameResult\<close> is sent and both players are sent \<open>changePlayer\<close>.
\<close>

theorem win_detection:
  assumes "session g = Some [a, b]" and "a \<noteq> b" and "p = a \<or> p = b"
    and "onPlayerMove g p m = Some g'" and "\<not> rejected g p g'"
  shows "sent g' = sent g @
           (if checkWin (scoreOf a g') \<or> checkWin (scoreOf b g')
            then [(a, gameResult (checkWin (scoreOf a g'))),
                  (b, gameResult (checkWin (scoreOf b g')))]
            else [(otherPlayer a b p,
                     changePlayer True (gameField g') (if color m = ''r'' then ''b'' else ''r'')),
                  (p, changePlayer False (gameField g') (color m))])"
proof -
  from onPlayerMove_accepted [OF assms] obtain field where
    g': "g' = afterMove a b p m (g\<lparr>gameField := field\<rparr>)" by blast
  have "sent g' = sent g @ roundMessages a b p m g'"
    unfolding g' by (simp add: afterMove_sent)
  then show ?thesis by (simp add: roundMessages_def)
qed

theorem win_detection_witness:
  "\<exists>g'. onPlayerMove nearWin 1 (aMove 0 0 2 1 ''r'' 0 (1, 5)) = Some g'
        \<and> sent g' = sent nearWin @ [(1, gameResult True), (2, gameResult False)]"
proof -
  have fields: "session nearWin = Some [1, 2]" "currentMove nearWin = Some 1"
    "gameField nearWin = generateField []"
    "playersState nearWin = Some [1 \<mapsto> Num 444, 2 \<mapsto> Num 12]"
    by (simp_all add: nearWin_def startedGame_def)
  have "legalMove (gameField nearWin) (aMove 0 0 2 1 ''r'' 0 (1, 5)) = Some True"
    using reachable_corner_example
    by (simp add: fields legalMove_started aMove_fields isCorner_def rectEmpty_generateField)
  from checked_move_outcome [of nearWin 1 "aMove 0 0 2 1 ''r'' 0 (1, 5)" 1 2
      "[1 \<mapsto> Num 444, 2 \<mapsto> Num 12]" True, OF _ _ _ _ _ _ this]
  obtain g' where run: "onPlayerMove nearWin 1 (aMove 0 0 2 1 ''r'' 0 (1, 5)) = Some g'"
    and g': "g' = afterMove 1 2 1 (aMove 0 0 2 1 ''r'' 0 (1, 5))
                    (nearWin\<lparr>gameField := gameField g'\<rparr>)"
    by (auto simp: fields aMove_fields)
  have accepted: "\<not> rejected nearWin 1 g'"
    using afterMove_not_rejected [of nearWin 1 1 2 "aMove 0 0 2 1 ''r'' 0 (1, 5)" "gameField g'"] g'
    by (simp add: fields)
  have scores: "scoreOf 1 g' = Some (Num 450)" "scoreOf 2 g' = Some (Num 12)"
    by (subst g', simp add: scoreOf_afterMove [where scores = "[1 \<mapsto> Num 444, 2 \<mapsto> Num 12]"]
        fields addDice_Num aMove_fields)+
  have two: "session nearWin = Some [1, 2]" "(1::nat) \<noteq> 2" "(1::nat) = 1 \<or> (1::nat) = 2"
    by (simp_all add: fields)
  have wins: "checkWin (scoreOf 1 g') = True" "checkWin (scoreOf 2 g') = False"
    unfolding scores by (simp_all add: checkWin_def)
  from win_detection [OF two run accepted]
  have "sent g' = sent nearWin @ [(1, gameResult True), (2, gameResult False)]"
    unfolding wins by simp
  with run show ?thesis by blast
qed

text \<open>
  C7, amended. Every protocol error (a payload that is not a string or that \<open>JSON.parse\<close>
  rejects, a parsed value other than \<open>null\<close> whose type is unknown and has a text, a
  \<open>playerMove\<close> out of turn) and every rule violation that the check of a move with
  \<open>sum = 0\<close> finds (start cell not allowed for the anchor, target not reachable, rectangle
  not empty) results in exactly one \<open>incorrectRequest\<close> message, sent to the sender, and
  leaves every field of the session (board, scores, turn) as it was. The claim fails as it
  is stated because a move with a nonzero \<open>sum\<close> is not checked: the counterexample is a
  move to an unreachable target that is answered by \<open>changePlayer\<close> and changes score and
  turn. It fails too on the payload \<open>null\<close>, which parses and on which the listener throws
  before it sends anything, where every other value without a known type is answered; the
  amended property says nothing of the payloads on which the listener throws
  (\<open>listener_throws\<close>).
\<close>

theorem errors_leave_state_unchanged:
  assumes "protocolError g p data \<or> ruleViolation g p data"
  shows "\<exists>text. onMessage g p data = Some (g\<lparr>sent := sent g @ [(p, incorrectRequest text)]\<rparr>)"
proof -
  have "\<exists>text. onMessage g p data = Some (replyError g p text)"
  proof (cases data)
    case NotAString
    then have "onMessage g p data = Some (replyError g p ''Wrong data type'')"
      by (simp add: onMessage_def parseMessage_def processMessage_def replyError_def
          sendMessage_def)
    then show ?thesis by (rule exI)
  next
    case (Unparsable error)
    then have "onMessage g p data
               = Some (replyError g p (''Can'' @ [CHR 0x27] @ ''t parse JSON data: '' @ error))"
      by (simp add: onMessage_def parseMessage_def processMessage_def replyError_def
          sendMessage_def)
    then show ?thesis by (rule exI)
  next
    case (Parsed message)
    show ?thesis
    proof (cases message)
      case (playerMove move)
      show ?thesis
      proof (cases "currentMove g = Some p")
        case False
        have "processMessage g p (playerMove move) = Some (replyError g p ''Not your turn'')"
        proof (cases move)
          case None
          with False show ?thesis
            by (simp add: processMessage_def onPlayerMoveUndefined_def replyError_def
                sendMessage_def)
        next
          case (Some m)
          with False show ?thesis
            by (simp add: processMessage_def out_of_turn)
        qed
        then have "onMessage g p data = Some (replyError g p ''Not your turn'')"
          using Parsed playerMove by (simp add: onMessage_def parseMessage_def)
        then show ?thesis by (rule exI)
      next
        case True
        with assms Parsed playerMove obtain m where move: "move = Some m"
          by (cases move) simp_all
        with True assms Parsed playerMove obtain anchor where
          "sum_field m = 0" "anchorCorner (gameField g) m = Some anchor"
          "anchorMismatch (gameField g) anchor m \<or> unreachableTarget (gameField g) anchor m
           \<or> nonEmptyRectangle (gameField g) anchor m"
          by (auto split: option.splits)
        then have "onPlayerMove g p m = Some (replyError g p ''wrong move'')"
          using True by (simp add: wrong_move legalMove_False)
        then have "onMessage g p data = Some (replyError g p ''wrong move'')"
          using Parsed playerMove move
          by (simp add: onMessage_def parseMessage_def processMessage_def)
        then show ?thesis by (rule exI)
      qed
    next
      case (unknownType type)
      then have "onMessage g p data
                 = Some (replyError g p
                     (''Unknown message type: '' @ [CHR 0x22] @ type @ [CHR 0x22]))"
        using Parsed
        by (simp add: onMessage_def parseMessage_def processMessage_def replyError_def
            sendMessage_def)
      then show ?thesis by (rule exI)
    qed (use assms Parsed in simp_all)
  qed
  then show ?thesis by (simp add: replyError_def)
qed

theorem errors_leave_state_unchanged_witness:
  "(\<exists>text. onMessage startedGame 2 NotAString
       = Some (startedGame\<lparr>sent := sent startedGame @ [(2, incorrectRequest text)]\<rparr>))
   \<and> (\<exists>text. onMessage startedGame 2 (Parsed (unknownType ''undefined''))
       = Some (startedGame\<lparr>sent := sent startedGame @ [(2, incorrectRequest text)]\<rparr>))
   \<and> (\<exists>text. onMessage startedGame 2 (Parsed (playerMove None))
       = Some (startedGame\<lparr>sent := sent startedGame @ [(2, incorrectRequest text)]\<rparr>))
   \<and> (\<exists>text. onMessage startedGame 2
                (Parsed (playerMove (Some (aMove 29 29 27 28 ''b'' 0 (3, 3)))))
       = Some (startedGame\<lparr>sent := sent startedGame @ [(2, incorrectRequest text)]\<rparr>))
   \<and> (\<exists>text. onMessage startedGame 1
                (Parsed (playerMove (Some (aMove 1 0 2 1 ''r'' 0 (1, 5)))))
       = Some (startedGame\<lparr>sent := sent startedGame @ [(1, incorrectRequest text)]\<rparr>))"
proof (intro conjI)
  show "\<exists>text. onMessage startedGame 2 NotAString
       = Some (startedGame\<lparr>sent := sent startedGame @ [(2, incorrectRequest text)]\<rparr>)"
    using errors_leave_state_unchanged [of startedGame 2 NotAString] by simp
  show "\<exists>text. onMessage startedGame 2 (Parsed (unknownType ''undefined''))
       = Some (startedGame\<lparr>sent := sent startedGame @ [(2, incorrectRequest text)]\<rparr>)"
    using errors_leave_state_unchanged [of startedGame 2 "Parsed (unknownType ''undefined'')"]
    by simp
  show "\<exists>text. onMessage startedGame 2 (Parsed (playerMove None))
       = Some (startedGame\<lparr>sent := sent startedGame @ [(2, incorrectRequest text)]\<rparr>)"
    using errors_leave_state_unchanged [of startedGame 2 "Parsed (playerMove None)"]
    by (simp add: startedGame_fields)
  show "\<exists>text. onMessage startedGame 2
                (Parsed (playerMove (Some (aMove 29 29 27 28 ''b'' 0 (3, 3)))))
       = Some (startedGame\<lparr>sent := sent startedGame @ [(2, incorrectRequest text)]\<rparr>)"
    using errors_leave_state_unchanged
      [of startedGame 2 "Parsed (playerMove (Some (aMove 29 29 27 28 ''b'' 0 (3, 3))))"]
    by (simp add: startedGame_fields)
  show "\<exists>text. onMessage startedGame 1
                (Parsed (playerMove (Some (aMove 1 0 2 1 ''r'' 0 (1, 5)))))
       = Some (startedGame\<lparr>sent := sent startedGame @ [(1, incorrectRequest text)]\<rparr>)"
    using errors_leave_state_unchanged
      [of startedGame 1 "Parsed (playerMove (Some (aMove 1 0 2 1 ''r'' 0 (1, 5))))"]
    by (simp add: startedGame_fields aMove_fields anchorCorner_started anchorMismatch_def
        startAllowed_started)
qed

theorem unchecked_violation_counterexample:
  "anchorCorner (gameField startedGame) (aMove 0 0 3 3 ''r'' 7 (3, 3)) = Some [0, 0]
   \<and> unreachableTarget (gameField startedGame) [0, 0] (aMove 0 0 3 3 ''r'' 7 (3, 3))
   \<and> onMessage startedGame 1 (Parsed (playerMove (Some (aMove 0 0 3 3 ''r'' 7 (3, 3)))))
       = Some (afterMove 1 2 1 (aMove 0 0 3 3 ''r'' 7 (3, 3)) startedGame)
   \<and> scoreOf 1 startedGame = Some (Num 0)
   \<and> scoreOf 1 (afterMove 1 2 1 (aMove 0 0 3 3 ''r'' 7 (3, 3)) startedGame) = Some (Num 6)
   \<and> currentMove startedGame = Some 1
   \<and> currentMove (afterMove 1 2 1 (aMove 0 0 3 3 ''r'' 7 (3, 3)) startedGame) = Some 2
   \<and> sent (afterMove 1 2 1 (aMove 0 0 3 3 ''r'' 7 (3, 3)) startedGame)
       = sent startedGame @ [(2, changePlayer True (gameField startedGame) ''b''),
                             (1, changePlayer False (gameField startedGame) ''r'')]
   \<and> onMessage startedGame 1 (Parsed nullValue) = None"
proof -
  let ?m = "aMove 0 0 3 3 ''r'' 7 (3, 3)"
  have anchor: "anchorCorner (gameField startedGame) ?m = Some [0, 0]"
    by (simp add: startedGame_fields anchorCorner_started aMove_fields)
  have "\<not> reachable [0, 0] 0 0 3 3 6"
    by (auto simp: reachable_top_left)
  then have unreachable: "unreachableTarget (gameField startedGame) [0, 0] ?m"
    by (simp add: unreachableTarget_def startedGame_fields startAllowed_started aMove_fields)
  have run: "onMessage startedGame 1 (Parsed (playerMove (Some ?m)))
             = Some (afterMove 1 2 1 ?m startedGame)"
    using unchecked_move_outcome [of startedGame 1 ?m 1 2 "[1 \<mapsto> Num 0, 2 \<mapsto> Num 0]"]
    by (simp add: onMessage_def parseMessage_def processMessage_def startedGame_fields
        aMove_fields)
  have score: "scoreOf 1 (afterMove 1 2 1 ?m startedGame) = Some (Num 6)"
    and other: "scoreOf 2 (afterMove 1 2 1 ?m startedGame) = Some (Num 0)"
    by (simp_all add: scoreOf_afterMove [where scores = "[1 \<mapsto> Num 0, 2 \<mapsto> Num 0]"]
        startedGame_fields addDice_Num aMove_fields)
  have wins: "checkWin (scoreOf 1 (afterMove 1 2 1 ?m startedGame)) = False"
    "checkWin (scoreOf 2 (afterMove 1 2 1 ?m startedGame)) = False"
    unfolding score other by (simp_all add: checkWin_def)
  have msgs: "sent (afterMove 1 2 1 ?m startedGame)
       = sent startedGame @ [(2, changePlayer True (gameField startedGame) ''b''),
                             (1, changePlayer False (gameField startedGame) ''r'')]"
    by (subst afterMove_sent, unfold roundMessages_def wins)
      (simp add: afterMove_fields otherPlayer_def aMove_fields)
  have null: "onMessage startedGame 1 (Parsed nullValue) = None"
    by (rule listener_throws)
  show ?thesis
    using anchor unreachable run score msgs null
    by (simp add: afterMove_fields otherPlayer_def startedGame_fields scoreOf_def)
qed

text \<open>
  C8. \<open>destroy\<close> never throws on a game that has its session, and a second invocation (as
  any number of further ones, from a \<open>close\<close> event or a direct call) returns the state of
  the first unchanged, so it sends nothing. The first invocation sends one \<open>gameAborted\<close>
  to each socket of the session that is neither closed nor closing, and to no other.
\<close>

theorem destroy_idempotent:
  assumes "session g = Some players"
  shows "\<exists>g1. destroy g = Some g1 \<and> destroy g1 = Some g1
           \<and> (\<forall>n. destroyTimes (Suc n) g = Some g1)
           \<and> sent g1 = sent g @ map (\<lambda>p. (p, gameAborted))
                                  (if destroyReplaced g then [] else notified (readyState g) players)
           \<and> distinct (notified (readyState g) players)
           \<and> set (notified (readyState g) players)
               = {p \<in> set players. readyState g p \<noteq> CLOSED \<and> readyState g p \<noteq> CLOSING}"
proof -
  from destroy_once_and_for_all [OF assms] obtain g1 where
    first: "destroy g = Some g1" and replaced: "destroyReplaced g1" and
    msgs: "sent g1 = sent g @ map (\<lambda>p. (p, gameAborted))
                                  (if destroyReplaced g then [] else notified (readyState g) players)"
    by blast
  have "destroy g1 = Some g1"
    using replaced by (rule destroy_again)
  moreover have "\<forall>n. destroyTimes (Suc n) g = Some g1"
    using first replaced by (simp add: destroyTimes_again)
  ultimately show ?thesis
    using first msgs by (simp add: distinct_notified set_notified)
qed

theorem destroy_idempotent_witness:
  "\<exists>g1. destroy startedGame = Some g1 \<and> destroy g1 = Some g1
        \<and> destroyTimes 3 startedGame = Some g1
        \<and> sent g1 = sent startedGame @ [(1, gameAborted), (2, gameAborted)]"
proof -
  have "session startedGame = Some [1, 2]"
    by (simp add: startedGame_fields)
  from destroy_idempotent [OF this] obtain g1 where
    first: "destroy startedGame = Some g1" and again: "destroy g1 = Some g1" and
    times: "\<forall>n. destroyTimes (Suc n) startedGame = Some g1" and
    msgs: "sent g1 = sent startedGame @ map (\<lambda>p. (p, gameAborted))
        (if destroyReplaced startedGame then []
         else notified (readyState startedGame) [1, 2])"
    by blast
  have "notified (readyState startedGame) [1, 2] = [1, 2]" "\<not> destroyReplaced startedGame"
    by (simp_all add: startedGame_def)
  with msgs have "sent g1 = sent startedGame @ [(1, gameAborted), (2, gameAborted)]"
    by simp
  moreover have "destroyTimes 3 startedGame = Some g1"
    using times [rule_format, of "Suc (Suc 0)"] by (simp only: numeral_3_eq_3)
  ultimately show ?thesis using first again by blast
qed

text \<open>
  C9. For every \<open>playerMove\<close> with a nonzero \<open>sum\<close> from the player whose turn it is, in a
  session of two sockets, the handler returns without any check of the move and leaves the
  board as it is, adds \<open>dices[0] + dices[1]\<close> to the sender's score, passes the turn to the
  other player and sends the messages of the win check. The witness is a move that the
  check would refuse.
\<close>

theorem nonzero_sum_skips_validation:
  assumes "currentMove g = Some p" and "sum_field m \<noteq> 0"
    and "session g = Some [a, b]" and "a \<noteq> b" and "p = a \<or> p = b"
    and "playersState g = Some scores" and "scores p = Some (Num s)"
  shows "\<exists>g'. onPlayerMove g p m = Some g'
           \<and> gameField g' = gameField g
           \<and> scoreOf p g' = Some (Num (s + fst (dices m) + snd (dices m)))
           \<and> scoreOf (otherPlayer a b p) g' = scores (otherPlayer a b p)
           \<and> currentMove g' = Some (otherPlayer a b p)
           \<and> sent g' = sent g @
               (if checkWin (scoreOf a g') \<or> checkWin (scoreOf b g')
                then [(a, gameResult (checkWin (scoreOf a g'))),
                      (b, gameResult (checkWin (scoreOf b g')))]
                else [(otherPlayer a b p,
                         changePlayer True (gameField g) (if color m = ''r'' then ''b'' else ''r'')),
                      (p, changePlayer False (gameField g) (color m))])"
proof -
  let ?g' = "afterMove a b p m g"
  have run: "onPlayerMove g p m = Some ?g'"
    using assms(1-6) by (rule unchecked_move_outcome)
  have "scoreOf p ?g' = Some (Num (s + fst (dices m) + snd (dices m)))"
    using assms(6,7) by (simp add: scoreOf_afterMove addDice_Num diceTotal_def)
  moreover have "scoreOf (otherPlayer a b p) ?g' = scores (otherPlayer a b p)"
    using assms(4-6) by (simp add: scoreOf_afterMove otherPlayer_differs)
  moreover have "sent ?g' = sent g @ roundMessages a b p m ?g'"
    by (rule afterMove_sent)
  ultimately show ?thesis
    using run by (simp add: afterMove_fields roundMessages_def)
qed

theorem nonzero_sum_skips_validation_witness:
  "legalMove (gameField startedGame) (aMove 4 4 9 9 ''r'' 3 (2, 3)) = Some False
   \<and> (\<exists>g'. onPlayerMove startedGame 1 (aMove 4 4 9 9 ''r'' 3 (2, 3)) = Some g'
          \<and> gameField g' = gameField startedGame
          \<and> scoreOf 1 g' = Some (Num 5)
          \<and> currentMove g' = Some 2
          \<and> sent g' = sent startedGame @
               [(2, changePlayer True (gameField startedGame) ''b''),
                (1, changePlayer False (gameField startedGame) ''r'')])"
proof
  show "legalMove (gameField startedGame) (aMove 4 4 9 9 ''r'' 3 (2, 3)) = Some False"
    by (simp add: startedGame_fields legalMove_started aMove_fields isCorner_def)
  from nonzero_sum_skips_validation [of startedGame 1 "aMove 4 4 9 9 ''r'' 3 (2, 3)" 1 2
      "[1 \<mapsto> Num 0, 2 \<mapsto> Num 0]" 0]
  obtain g' where run: "onPlayerMove startedGame 1 (aMove 4 4 9 9 ''r'' 3 (2, 3)) = Some g'"
    and board: "gameField g' = gameField startedGame"
    and score: "scoreOf 1 g' = Some (Num 5)"
    and other: "scoreOf 2 g' = Some (Num 0)"
    and turn: "currentMove g' = Some 2"
    and msgs: "sent g' = sent startedGame @
               (if checkWin (scoreOf 1 g') \<or> checkWin (scoreOf 2 g')
                then [(1, gameResult (checkWin (scoreOf 1 g'))),
                      (2, gameResult (checkWin (scoreOf 2 g')))]
                else [(2, changePlayer True (gameField startedGame) ''b''),
                      (1, changePlayer False (gameField startedGame) ''r'')])"
    by (auto simp: startedGame_fields aMove_fields otherPlayer_def)
  have wins: "checkWin (scoreOf 1 g') = False" "checkWin (scoreOf 2 g') = False"
    unfolding score other by (simp_all add: checkWin_def)
  from msgs have "sent g' = sent startedGame @
               [(2, changePlayer True (gameField startedGame) ''b''),
                (1, changePlayer False (gameField startedGame) ''r'')]"
    unfolding wins by simp
  with run board score turn
  show "\<exists>g'. onPlayerMove startedGame 1 (aMove 4 4 9 9 ''r'' 3 (2, 3)) = Some g'
          \<and> gameField g' = gameField startedGame
          \<and> scoreOf 1 g' = Some (Num 5)
          \<and> currentMove g' = Some 2
          \<and> sent g' = sent startedGame @
               [(2, changePlayer True (gameField startedGame) ''b''),
                (1, changePlayer False (gameField startedGame) ''r'')]"
    by blast
qed

text \<open>
  C10, amended. On a board of 30 x 30 cells, every move that \<open>_makeMove\<close> accepts (target
  reachable and every cell of the rectangle read as unclaimed) has its start cell, its
  target and its whole rectangle inside the grid, so that \<open>_fillField\<close> writes only inside
  the grid and never reaches the out-of-range branch. Reachability alone does not bound the
  target, which is why the claim fails as it is stated: after four legal moves the cell
  (24,0) is a start cell of the first player, the target (35,0) is reachable with dice 6
  and 6, and the scan of the rectangle reads row 30.
\<close>

theorem accepted_move_inside_grid:
  assumes "wf_field field" and "makeMove field anchor rowFrom colFrom rowTo colTo d = Some True"
  shows "0 \<le> rowTo \<and> rowTo < 30 \<and> 0 \<le> colTo \<and> colTo < 30
         \<and> 0 \<le> rowFrom \<and> rowFrom < 30 \<and> 0 \<le> colFrom \<and> colFrom < 30
         \<and> (\<forall>i j. inRect rowFrom colFrom rowTo colTo i j
                \<longrightarrow> 0 \<le> i \<and> i < 30 \<and> 0 \<le> j \<and> j < 30)
         \<and> (\<exists>field'. fillField c field rowFrom colFrom rowTo colTo = Some field'
                \<and> wf_field field')"
proof -
  note inside = makeMove_inside [OF assms, of c]
  then have cells: "\<And>i j. inRect rowFrom colFrom rowTo colTo i j
                \<Longrightarrow> 0 \<le> i \<and> i < 30 \<and> 0 \<le> j \<and> j < 30"
    by blast
  have "inRect rowFrom colFrom rowTo colTo rowTo colTo"
    and "inRect rowFrom colFrom rowTo colTo rowFrom colFrom"
    by (simp_all add: inRect_def)
  from cells [OF this(1)] cells [OF this(2)] inside show ?thesis by blast
qed

theorem accepted_move_inside_grid_witness:
  "makeMove (generateField []) [0, 0] 0 0 2 1 (1, 5) = Some True
   \<and> (\<exists>field'. fillField ''r'' (generateField []) 0 0 2 1 = Some field' \<and> wf_field field')"
proof -
  have move: "makeMove (generateField []) [0, 0] 0 0 2 1 (1, 5) = Some True"
    using reachable_corner_example
    by (simp add: possibleMoves_iff areCellsEmpty_iff rectEmpty_generateField)
  from accepted_move_inside_grid [OF wf_generateField move, of "''r''"] move
  show ?thesis by blast
qed

theorem reachable_target_outside_grid_counterexample:
  "boardAndTurn (playMoves startedGame fourMoves) = Some (columnBoard, Some 1)
   \<and> checkTo (showMoves (factorization (6 + 6)) ''+'' ''+'' 24 0) 35 0
   \<and> reachable [0, 0] 24 0 35 0 (6 + 6)
   \<and> cellAt columnBoard 30 0 = None
   \<and> makeMove columnBoard [0, 0] 24 0 35 0 (6, 6) = None
   \<and> playMoves startedGame (fourMoves @ [(1, aMove 24 0 35 0 ''r'' 0 (6, 6))]) = None"
proof (intro conjI)
  show run: "boardAndTurn (playMoves startedGame fourMoves) = Some (columnBoard, Some 1)"
    by code_simp
  show "checkTo (showMoves (factorization (6 + 6)) ''+'' ''+'' 24 0) 35 0"
    by code_simp
  show "reachable [0, 0] 24 0 35 0 (6 + 6)"
    unfolding reachable_top_left by (rule bexI [of _ 12]) simp_all
  show "cellAt columnBoard 30 0 = None"
    by code_simp
  show "makeMove columnBoard [0, 0] 24 0 35 0 (6, 6) = None"
    by code_simp
  from run obtain g where g: "playMoves startedGame fourMoves = Some g"
    and fields: "gameField g = columnBoard" "currentMove g = Some 1"
    by (auto simp: boardAndTurn_def)
  have "legalMove columnBoard (aMove 24 0 35 0 ''r'' 0 (6, 6)) = None"
    by code_simp
  then have "onPlayerMove g 1 (aMove 24 0 35 0 ''r'' 0 (6, 6)) = None"
    using fields by (simp add: check_throws aMove_fields del: One_nat_def)
  then show "playMoves startedGame (fourMoves @ [(1, aMove 24 0 35 0 ''r'' 0 (6, 6))]) = None"
    by (simp add: playMoves_append g del: One_nat_def)
qed

end
